theory Spec2Isabelle
  imports Complex_Main "HOL-Library.Word"
begin

section \<open>Data model\<close>

text \<open>
  The engine is templated over \<open>REAL_T\<close>, and so are the two records below. The expression
  nodes and the record-and-assign procedure are embedded at the mathematical reals, where
  the derivative formulas are exact. The transformation of a bounded parameter and the
  setting of bounds branch on computed values and lose digits to rounding; they are
  embedded at the binary64 values of \<open>double\<close> as well. Heap objects (the \<open>VariableInfo\<close>
  records that variables and tape entries point to) live in an explicit store indexed by
  address.
\<close>

type_synonym addr = nat

text \<open>
  Modelled from the spec: \<open>VariableInfo\<close> is declared in \<open>GradientStructure.hpp\<close>, which is
  not among the sources. The fields are those of section 3 of the specification that the
  assignment procedure reads or writes; the leaf identifier is a 32-bit unsigned integer,
  \<open>is_dependent\<close> and \<open>dependence_level\<close> are counters.
\<close>

record 'r VariableInfo_of =
  info_id :: "32 word"
  vvalue :: 'r
  dvalue :: 'r
  is_dependent :: int
  is_nl :: bool
  has_nl_interaction :: bool
  dependence_level :: int
  dependencies :: "addr list"
  push_start :: nat

type_synonym VariableInfo = "real VariableInfo_of"

type_synonym heap = "addr \<Rightarrow> VariableInfo"

text \<open>
  The data members of \<open>Variable\<close> (Variable.hpp, lines 150-152 and 395-401) that the
  functions below read or write. The pointer to the transformation and the name are left
  out: no modelled function reads them.
\<close>

record 'r Variable_of =
  info :: addr
  mapped_info :: addr
  min_boundary_m :: 'r
  max_boundary_m :: 'r
  bounded_m :: bool

type_synonym Variable = "real Variable_of"

section \<open>Binary64 arithmetic\<close>

text \<open>
  The programs that use the engine instantiate \<open>REAL_T\<close> with \<open>double\<close>. Where a function
  branches on a computed value or loses it to rounding, it is modelled on the binary64
  values: the finite ones, the two infinities and NaN. The two zeros are one value (they
  compare equal, and the modelled functions never take the sign of a zero), and a
  quotient by zero is the one by the positive zero. Every operation rounds its exact
  result to the nearest binary64 value, ties to the even significand, with gradual
  underflow and with overflow to an infinity; neither fused nor extended-precision
  evaluation is modelled.
\<close>

datatype double = Finite real | PlusInfinity | MinusInfinity | NaN

definition round_half_even :: "real \<Rightarrow> int" where
  "round_half_even q =
     (if q - of_int \<lfloor>q\<rfloor> < 1 / 2 then \<lfloor>q\<rfloor>
      else if q - of_int \<lfloor>q\<rfloor> > 1 / 2 then \<lfloor>q\<rfloor> + 1
      else if even \<lfloor>q\<rfloor> then \<lfloor>q\<rfloor> else \<lfloor>q\<rfloor> + 1)"

text \<open>
  The binary exponent of a nonzero real, not below that of the subnormal numbers, and the
  distance between neighbouring binary64 values at that exponent (53 significant bits).
\<close>

definition exponent :: "real \<Rightarrow> int" where
  "exponent x = max (- 1022) \<lfloor>log 2 \<bar>x\<bar>\<rfloor>"

definition ulp :: "real \<Rightarrow> real" where
  "ulp x = 2 powr of_int (exponent x - 52)"

definition round_to_grid :: "real \<Rightarrow> real" where
  "round_to_grid x = (if x = 0 then 0 else of_int (round_half_even (x / ulp x)) * ulp x)"

text \<open>
  The largest finite value is \<open>2 ^ 1024 - 2 ^ 971\<close>; a real at least half a unit in the
  last place above it rounds to an infinity.
\<close>

definition overflow_threshold :: real where
  "overflow_threshold = 2 ^ 1024 - 2 ^ 970"

definition round_double :: "real \<Rightarrow> double" where
  "round_double x =
     (if overflow_threshold \<le> \<bar>x\<bar> then (if 0 < x then PlusInfinity else MinusInfinity)
      else Finite (round_to_grid x))"

fun neg_double :: "double \<Rightarrow> double" where
  "neg_double (Finite x) = Finite (- x)"
| "neg_double PlusInfinity = MinusInfinity"
| "neg_double MinusInfinity = PlusInfinity"
| "neg_double NaN = NaN"

fun add_double :: "double \<Rightarrow> double \<Rightarrow> double" where
  "add_double NaN b = NaN"
| "add_double a NaN = NaN"
| "add_double (Finite x) (Finite y) = round_double (x + y)"
| "add_double PlusInfinity MinusInfinity = NaN"
| "add_double MinusInfinity PlusInfinity = NaN"
| "add_double PlusInfinity b = PlusInfinity"
| "add_double MinusInfinity b = MinusInfinity"
| "add_double (Finite x) b = b"

definition sub_double :: "double \<Rightarrow> double \<Rightarrow> double" where
  "sub_double a b = add_double a (neg_double b)"

text \<open>The sign of an operand that is not a NaN, and the infinity of a sign.\<close>

fun sign_double :: "double \<Rightarrow> real" where
  "sign_double (Finite x) = sgn x"
| "sign_double PlusInfinity = 1"
| "sign_double MinusInfinity = - 1"
| "sign_double NaN = 0"

definition infinity_of :: "real \<Rightarrow> double" where
  "infinity_of s = (if 0 < s then PlusInfinity else if s < 0 then MinusInfinity else NaN)"

fun mul_double :: "double \<Rightarrow> double \<Rightarrow> double" where
  "mul_double NaN b = NaN"
| "mul_double a NaN = NaN"
| "mul_double (Finite x) (Finite y) = round_double (x * y)"
| "mul_double a b = infinity_of (sign_double a * sign_double b)"

fun div_double :: "double \<Rightarrow> double \<Rightarrow> double" where
  "div_double NaN b = NaN"
| "div_double a NaN = NaN"
| "div_double (Finite x) (Finite y) = (if y = 0 then infinity_of (sgn x) else round_double (x / y))"
| "div_double (Finite x) b = Finite 0"
| "div_double a (Finite y) = infinity_of (sign_double a * (if y < 0 then - 1 else 1))"
| "div_double a b = NaN"

text \<open>The comparisons \<open><\<close> and \<open>==\<close>; both are false when an operand is a NaN.\<close>

fun less_double :: "double \<Rightarrow> double \<Rightarrow> bool" where
  "less_double NaN b = False"
| "less_double a NaN = False"
| "less_double (Finite x) (Finite y) = (x < y)"
| "less_double a PlusInfinity = (a \<noteq> PlusInfinity)"
| "less_double MinusInfinity b = (b \<noteq> MinusInfinity)"
| "less_double a b = False"

fun eq_double :: "double \<Rightarrow> double \<Rightarrow> bool" where
  "eq_double NaN b = False"
| "eq_double a NaN = False"
| "eq_double a b = (a = b)"


section \<open>Parameter transformations\<close>

text \<open>
  \<open>TanhParameterTransformation\<close> (lines 91-105). \<open>std::pow(x, 2.0)\<close> is the square of
  \<open>x\<close>; the denominator is transcribed with the parentheses of the source.
\<close>

definition Tanh_External2Internal :: "real \<Rightarrow> real \<Rightarrow> real \<Rightarrow> real" where
  "Tanh_External2Internal val min' max' = min' + 0.5 * (max' - min') * (1.0 + tanh val)"

definition Tanh_Internal2External :: "real \<Rightarrow> real \<Rightarrow> real \<Rightarrow> real" where
  "Tanh_Internal2External val min' max' = artanh (2.0 * (val - min') / (max' - min') - 1.0)"

definition Tanh_DerivativeInternal2External :: "real \<Rightarrow> real \<Rightarrow> real \<Rightarrow> real" where
  "Tanh_DerivativeInternal2External val min' max' =
     2.0 / ((max' - min') * (1.0 - ((2.0 * (val - min')) / max' - min' - 1.0)) ^ 2)"

text \<open>
  \<open>SinParameterTransformation\<close> (lines 111-125): first the two expressions read in exact
  arithmetic over the reals, then the two functions on \<open>double\<close>.
\<close>

definition Sin_External2Internal_exact :: "real \<Rightarrow> real \<Rightarrow> real \<Rightarrow> real" where
  "Sin_External2Internal_exact val min' max' =
     arcsin ((2.0 * val) / (max' - min') - min' / (max' - min') - max' / (max' - min'))"

definition Sin_Internal2External_exact :: "real \<Rightarrow> real \<Rightarrow> real \<Rightarrow> real" where
  "Sin_Internal2External_exact val min' max' = min' + 0.5 * (max' - min') * (sin val + 1)"

text \<open>
  \<open>std::asin\<close> and \<open>std::sin\<close> belong to the C library and are parameters of the two
  functions. \<open>correctly_rounded\<close> is the library that returns the binary64 value nearest
  to the exact result; as the C standard asks, the arc sine of a number outside the
  interval from -1 to 1 is a NaN, and so is the sine of an infinity or a NaN.
\<close>

record math_library =
  std_asin :: "double \<Rightarrow> double"
  std_sin :: "double \<Rightarrow> double"

fun asin_double :: "double \<Rightarrow> double" where
  "asin_double (Finite x) = (if \<bar>x\<bar> \<le> 1 then round_double (arcsin x) else NaN)"
| "asin_double a = NaN"

fun sin_double :: "double \<Rightarrow> double" where
  "sin_double (Finite x) = round_double (sin x)"
| "sin_double a = NaN"

definition correctly_rounded :: math_library where
  "correctly_rounded = \<lparr> std_asin = asin_double, std_sin = sin_double \<rparr>"

text \<open>
  Two binary64 values agree within a tolerance when both are finite and their distance
  does not exceed it.
\<close>

fun within_tolerance :: "real \<Rightarrow> double \<Rightarrow> double \<Rightarrow> bool" where
  "within_tolerance tol (Finite x) (Finite y) = (\<bar>x - y\<bar> \<le> tol)"
| "within_tolerance tol a b = False"

text \<open>
  A library is accurate when the arc sine of a number between -1 and 1 and the sine of any
  number are finite and within 2 to the power -52 of the exact result, which is one unit
  in the last place of the numbers between 1 and 2.
\<close>

definition accurate :: "math_library \<Rightarrow> bool" where
  "accurate L \<longleftrightarrow>
     (\<forall>x. \<bar>x\<bar> \<le> 1 \<longrightarrow> within_tolerance (1 / 2 ^ 52) (std_asin L (Finite x)) (Finite (arcsin x)))
     \<and> (\<forall>x. within_tolerance (1 / 2 ^ 52) (std_sin L (Finite x)) (Finite (sin x)))"

text \<open>
  Every operation of the two expressions rounds, in the order in which the source
  associates them.
\<close>

definition Sin_External2Internal_double ::
  "math_library \<Rightarrow> double \<Rightarrow> double \<Rightarrow> double \<Rightarrow> double" where
  "Sin_External2Internal_double L val min' max' =
     std_asin L
       (sub_double
          (sub_double (div_double (mul_double (Finite 2) val) (sub_double max' min'))
                      (div_double min' (sub_double max' min')))
          (div_double max' (sub_double max' min')))"

definition Sin_Internal2External_double ::
  "math_library \<Rightarrow> double \<Rightarrow> double \<Rightarrow> double \<Rightarrow> double" where
  "Sin_Internal2External_double L val min' max' =
     add_double min'
       (mul_double (mul_double (Finite (1 / 2)) (sub_double max' min'))
                   (add_double (std_sin L val) (Finite 1)))"

section \<open>Values and bounds of a variable\<close>

text \<open>\<open>Variable::GetValue\<close> (lines 604-606).\<close>

definition GetValue_var :: "'r Variable_of \<Rightarrow> (addr \<Rightarrow> 'r VariableInfo_of) \<Rightarrow> 'r" where
  "GetValue_var v h = vvalue (h (info v))"

text \<open>
  \<open>Variable::SetValue\<close> (lines 691-713) at the reals, as the record-and-assign procedure
  calls it. The test \<open>value != value\<close> holds of a NaN only, so over the reals that branch is
  never taken; it is kept as the source has it.
\<close>

definition SetValue :: "Variable \<Rightarrow> real \<Rightarrow> heap \<Rightarrow> heap" where
  "SetValue v val h =
     (if \<not> bounded_m v then h(info v := (h (info v))\<lparr>vvalue := val\<rparr>)
      else if val \<noteq> val then
        h(info v := (h (info v))\<lparr>vvalue := min_boundary_m v + (max_boundary_m v - min_boundary_m v) / 2.0\<rparr>)
      else if val < min_boundary_m v then h(info v := (h (info v))\<lparr>vvalue := min_boundary_m v\<rparr>)
      else if val > max_boundary_m v then h(info v := (h (info v))\<lparr>vvalue := max_boundary_m v\<rparr>)
      else h(info v := (h (info v))\<lparr>vvalue := val\<rparr>))"

text \<open>
  \<open>Variable::SetValue\<close> (lines 691-713) on \<open>double\<close>: \<open>value != value\<close> is the negation of
  \<open>==\<close>, and \<open>value > max_boundary_m\<close> is \<open>max_boundary_m < value\<close>.
\<close>

type_synonym heap_double = "addr \<Rightarrow> double VariableInfo_of"

definition SetValue_double :: "double Variable_of \<Rightarrow> double \<Rightarrow> heap_double \<Rightarrow> heap_double" where
  "SetValue_double v val h =
     (if \<not> bounded_m v then h(info v := (h (info v))\<lparr>vvalue := val\<rparr>)
      else if \<not> eq_double val val then
        h(info v := (h (info v))\<lparr>vvalue :=
            add_double (min_boundary_m v)
              (div_double (sub_double (max_boundary_m v) (min_boundary_m v)) (Finite 2))\<rparr>)
      else if less_double val (min_boundary_m v)
        then h(info v := (h (info v))\<lparr>vvalue := min_boundary_m v\<rparr>)
      else if less_double (max_boundary_m v) val
        then h(info v := (h (info v))\<lparr>vvalue := max_boundary_m v\<rparr>)
      else h(info v := (h (info v))\<lparr>vvalue := val\<rparr>))"

text \<open>
  \<open>Variable::SetBounds\<close> (lines 763-770) on \<open>double\<close>, with the two setters it calls
  inlined.
\<close>

definition SetBounds_double ::
  "double \<Rightarrow> double \<Rightarrow> double Variable_of \<times> heap_double \<Rightarrow> double Variable_of \<times> heap_double" where
  "SetBounds_double min_boundary max_boundary s =
     (let v = fst s; h = snd s;
          v1 = v\<lparr>bounded_m := True\<rparr>;
          v2 = v1\<lparr>min_boundary_m := min_boundary\<rparr>;
          v3 = v2\<lparr>max_boundary_m := max_boundary\<rparr>
      in if less_double (GetValue_var v3 h) (min_boundary_m v3)
            \<or> less_double (max_boundary_m v3) (GetValue_var v3 h)
            \<or> eq_double (GetValue_var v3 h) (Finite 0)
         then (v3, SetValue_double v3
                     (div_double (add_double min_boundary max_boundary) (Finite 2)) h)
         else (v3, h))"

section \<open>Expression nodes\<close>

text \<open>
  Modelled from the spec: \<open>IDSet\<close> is declared in a header that is not among the sources.
  Section 2 describes it as an ordered, deduplicating collection, and section 5 fixes the
  iteration order as the insertion order. It is a list without repetition; \<open>insert\<close>
  appends an element that is not yet present.
\<close>

definition IDSet_insert :: "'a \<Rightarrow> 'a list \<Rightarrow> 'a list" where
  "IDSet_insert x xs = (if x \<in> set xs then xs else xs @ [x])"

text \<open>
  Modelled from the spec: the classes \<open>DynamicVariable\<close>, \<open>DynamicSinh\<close> and \<open>DynamicCosh\<close>
  that \<open>GetDynamicExpession\<close> allocates are declared in \<open>Expression.hpp\<close>, which is not among
  the sources. A clone is the tree of constructor calls.
\<close>

datatype DynamicExpression =
    DynamicVariable addr
  | DynamicSinh DynamicExpression
  | DynamicCosh DynamicExpression
  | DynamicMultiply DynamicExpression DynamicExpression

text \<open>
  Modelled from the spec: \<open>ExpressionBase\<close> is declared in \<open>Expression.hpp\<close>, which is not
  among the sources. A node of any operator type is the record of the member functions
  that the assignment procedure and the enclosing nodes call on it (the contract of
  section 4.1); each reads the heap as it is at the time of the call. The three overloads
  of \<open>EvaluateDerivative\<close> are told apart by a suffix.
\<close>

record Expression =
  GetValue :: "heap \<Rightarrow> real"
  PushIds :: "addr list \<Rightarrow> addr list"
  IsNonlinear :: "heap \<Rightarrow> bool"
  MakeNLInteractions :: "bool \<Rightarrow> heap \<Rightarrow> heap"
  EvaluateDerivative :: "heap \<Rightarrow> 32 word \<Rightarrow> real"
  EvaluateDerivative2 :: "heap \<Rightarrow> 32 word \<Rightarrow> 32 word \<Rightarrow> real"
  EvaluateDerivative3 :: "heap \<Rightarrow> 32 word \<Rightarrow> 32 word \<Rightarrow> 32 word \<Rightarrow> real"
  GetDynamicExpession :: DynamicExpression

text \<open>
  The leaf: the member functions of \<open>Variable\<close> that make it an expression
  (Variable.hpp, lines 604-606 and 811-877).
\<close>

definition Variable_node :: "Variable \<Rightarrow> Expression" where
  "Variable_node v =
     \<lparr> GetValue = (\<lambda>h. vvalue (h (info v))),
       PushIds = (\<lambda>s. IDSet_insert (info v) s),
       IsNonlinear = (\<lambda>h. is_nl (h (info v))),
       MakeNLInteractions = (\<lambda>b h. h(info v := (h (info v))\<lparr>has_nl_interaction := b\<rparr>)),
       EvaluateDerivative = (\<lambda>h a. if info_id (h (info v)) = a then 1 else 0),
       EvaluateDerivative2 = (\<lambda>h a b. 0.0),
       EvaluateDerivative3 = (\<lambda>h x y z. 0.0),
       GetDynamicExpession = DynamicVariable (info v) \<rparr>"

text \<open>\<open>Sinh\<close> (Sinh.hpp, lines 71-140).\<close>

definition Sinh :: "Expression \<Rightarrow> Expression" where
  "Sinh expr_m =
     \<lparr> GetValue = (\<lambda>h. sinh (GetValue expr_m h)),
       PushIds = (\<lambda>s. PushIds expr_m s),
       IsNonlinear = (\<lambda>h. True),
       MakeNLInteractions = (\<lambda>b h. h),
       EvaluateDerivative = (\<lambda>h a. EvaluateDerivative expr_m h a * cosh (GetValue expr_m h)),
       EvaluateDerivative2 = (\<lambda>h a b.
          (sinh (GetValue expr_m h) * EvaluateDerivative expr_m h a * EvaluateDerivative expr_m h b)
          + (cosh (GetValue expr_m h) * EvaluateDerivative2 expr_m h a b)),
       EvaluateDerivative3 = (\<lambda>h x y z.
          cosh (GetValue expr_m h) * (EvaluateDerivative expr_m h x)
            * (EvaluateDerivative expr_m h y) * (EvaluateDerivative expr_m h z)
          + sinh (GetValue expr_m h) * (EvaluateDerivative2 expr_m h x y)
            * (EvaluateDerivative expr_m h z)
          + sinh (GetValue expr_m h)
            * (EvaluateDerivative expr_m h x) * (EvaluateDerivative2 expr_m h y z)
          + sinh (GetValue expr_m h) * (EvaluateDerivative2 expr_m h x z)
            * (EvaluateDerivative expr_m h y)
          + cosh (GetValue expr_m h)
            * (EvaluateDerivative3 expr_m h x y z)),
       GetDynamicExpession = DynamicSinh (GetDynamicExpession expr_m) \<rparr>"

text \<open>
  \<open>Cosh\<close> (Cosh.hpp, lines 69-141). The constructor stores the inner value in \<open>value_m\<close>,
  which \<open>GetValue\<close> reads; the derivatives read the inner expression's current value.
\<close>

definition Cosh_members :: "Expression \<Rightarrow> real \<Rightarrow> Expression" where
  "Cosh_members expr_m value_m =
     \<lparr> GetValue = (\<lambda>h. cosh value_m),
       PushIds = (\<lambda>s. PushIds expr_m s),
       IsNonlinear = (\<lambda>h. True),
       MakeNLInteractions = (\<lambda>b h. h),
       EvaluateDerivative = (\<lambda>h a. EvaluateDerivative expr_m h a * sinh (GetValue expr_m h)),
       EvaluateDerivative2 = (\<lambda>h a b.
          (cosh (GetValue expr_m h) * EvaluateDerivative expr_m h a * EvaluateDerivative expr_m h b)
          + (sinh (GetValue expr_m h) * EvaluateDerivative2 expr_m h a b)),
       EvaluateDerivative3 = (\<lambda>h x y z.
          sinh (GetValue expr_m h) * (EvaluateDerivative expr_m h x)
            * (EvaluateDerivative expr_m h y) * (EvaluateDerivative expr_m h z)
          + cosh (GetValue expr_m h) * (EvaluateDerivative2 expr_m h x y)
            * (EvaluateDerivative expr_m h z)
          + cosh (GetValue expr_m h)
            * (EvaluateDerivative expr_m h x) * (EvaluateDerivative2 expr_m h y z)
          + cosh (GetValue expr_m h) * (EvaluateDerivative2 expr_m h x z)
            * (EvaluateDerivative expr_m h y)
          + sinh (GetValue expr_m h)
            * (EvaluateDerivative3 expr_m h x y z)),
       GetDynamicExpession = DynamicCosh (GetDynamicExpession expr_m) \<rparr>"

definition Cosh :: "heap \<Rightarrow> Expression \<Rightarrow> Expression" where
  "Cosh h expr = Cosh_members expr (GetValue expr h)"

text \<open>
  Modelled from the spec: \<open>Multiply.hpp\<close> is not among the sources. Section 4.1 asks a
  binary node for the standard chain-rule expansion over its two children, which for a
  product is the Leibniz rule; the leaves are pushed left to right, the node is nonlinear
  and marks its children as interacting.
\<close>

definition Multiply :: "Expression \<Rightarrow> Expression \<Rightarrow> Expression" where
  "Multiply lhs_m rhs_m =
     \<lparr> GetValue = (\<lambda>h. GetValue lhs_m h * GetValue rhs_m h),
       PushIds = (\<lambda>s. PushIds rhs_m (PushIds lhs_m s)),
       IsNonlinear = (\<lambda>h. True),
       MakeNLInteractions = (\<lambda>b h. MakeNLInteractions rhs_m True (MakeNLInteractions lhs_m True h)),
       EvaluateDerivative = (\<lambda>h a.
          EvaluateDerivative lhs_m h a * GetValue rhs_m h
          + GetValue lhs_m h * EvaluateDerivative rhs_m h a),
       EvaluateDerivative2 = (\<lambda>h a b.
          EvaluateDerivative2 lhs_m h a b * GetValue rhs_m h
          + EvaluateDerivative lhs_m h a * EvaluateDerivative rhs_m h b
          + EvaluateDerivative lhs_m h b * EvaluateDerivative rhs_m h a
          + GetValue lhs_m h * EvaluateDerivative2 rhs_m h a b),
       EvaluateDerivative3 = (\<lambda>h x y z.
          EvaluateDerivative3 lhs_m h x y z * GetValue rhs_m h
          + EvaluateDerivative2 lhs_m h x y * EvaluateDerivative rhs_m h z
          + EvaluateDerivative2 lhs_m h x z * EvaluateDerivative rhs_m h y
          + EvaluateDerivative2 lhs_m h y z * EvaluateDerivative rhs_m h x
          + EvaluateDerivative lhs_m h x * EvaluateDerivative2 rhs_m h y z
          + EvaluateDerivative lhs_m h y * EvaluateDerivative2 rhs_m h x z
          + EvaluateDerivative lhs_m h z * EvaluateDerivative2 rhs_m h x y
          + GetValue lhs_m h * EvaluateDerivative3 rhs_m h x y z),
       GetDynamicExpession = DynamicMultiply (GetDynamicExpession lhs_m) (GetDynamicExpession rhs_m) \<rparr>"

section \<open>The tape\<close>

text \<open>
  Modelled from the spec: the enumeration of trace levels, \<open>StackEntry\<close> and
  \<open>GradientStructure\<close> are declared in \<open>GradientStructure.hpp\<close>, which is not among the
  sources; their members are those of section 3. \<open>UNKNOWN_TRACE_LEVEL\<close> stands for every
  value of the enumeration's integer type that is none of the eight enumerators, which is
  what the \<open>default\<close> label of a switch receives. The pointer \<open>w\<close> of an entry is absent
  until an assignment sets it.
\<close>

datatype DerivativeTraceLevel =
    FIRST_ORDER
  | SECOND_ORDER
  | THIRD_ORDER
  | SECOND_ORDER_MIXED_PARTIALS
  | THIRD_ORDER_MIXED_PARTIALS
  | GRADIENT
  | GRADIENT_AND_HESSIAN
  | DYNAMIC_RECORD
  | UNKNOWN_TRACE_LEVEL

record StackEntry =
  w :: "addr option"
  ids :: "addr list"
  first :: "real list"
  second :: "real list"
  third :: "real list"
  second_mixed :: "real list"
  third_mixed :: "real list"
  dyn_exp :: "DynamicExpression option"

record GradientStructure =
  recording :: bool
  derivative_trace_level :: DerivativeTraceLevel
  gradient_stack :: "StackEntry list"
  stack_current :: nat
  min_id :: "32 word"
  max_id :: "32 word"

definition empty_entry :: StackEntry where
  "empty_entry =
     \<lparr> w = None, ids = [], first = [], second = [], third = [],
       second_mixed = [], third_mixed = [], dyn_exp = None \<rparr>"

text \<open>
  Modelled from the spec: \<open>GradientStructure::NextIndex\<close> is defined in
  \<open>GradientStructure.hpp\<close>, which is not among the sources. Section 3 describes it as the
  monotonic cursor that returns the next free tape slot: it returns \<open>stack_current\<close> and
  advances it by one, and the stack is extended by a fresh entry when the cursor has
  reached its end, so that the returned slot exists. The number of records on the tape
  is \<open>stack_current\<close>.
\<close>

definition NextIndex :: "GradientStructure \<Rightarrow> nat \<times> GradientStructure" where
  "NextIndex gs =
     (stack_current gs,
      gs\<lparr> gradient_stack :=
            gradient_stack gs
            @ replicate (stack_current gs + 1 - length (gradient_stack gs)) empty_entry,
          stack_current := stack_current gs + 1 \<rparr>)"

text \<open>
  \<open>std::vector::resize(n, v)\<close>: the first \<open>n\<close> elements are kept and the vector is padded
  with \<open>v\<close> up to length \<open>n\<close>.
\<close>

definition resize :: "nat \<Rightarrow> 'a \<Rightarrow> 'a list \<Rightarrow> 'a list" where
  "resize n v xs = take n xs @ replicate (n - length xs) v"

text \<open>
  The program leaves \<open>Assign_p\<close> without returning through \<open>exit(0)\<close> after it has written a
  diagnostic to the standard output; the error value carries the diagnostic and the exit
  status.
\<close>

datatype error = Exit string int

definition not_yet_available :: "string \<Rightarrow> string" where
  "not_yet_available mode = [CHR 0x22] @ mode @ [CHR 0x22] @ '' not yet available!'' @ [CHR 0x0A]"

section \<open>The record-and-assign procedure\<close>

text \<open>
  The loops of \<open>Variable::Assign_p\<close> (Variable.hpp, lines 160-388). An iterator over
  \<open>entry.ids\<close> is the list of the addresses still to visit; the counters \<open>i\<close>, \<open>j\<close> and
  \<open>k\<close> never become negative and are natural numbers. \<open>entry\<close> is the reference into
  \<open>gs.gradient_stack\<close>: the loops work on the entry and \<open>Assign_p\<close> stores it back at its
  index. Each vector has been resized to the number of leaves, its square or its cube
  before the loop that writes it, so every store is within bounds and is a list update.
  The case \<open>FIRST_ORDER\<close> (lines 185-200):
\<close>

fun first_order_loop ::
  "Expression \<Rightarrow> heap \<Rightarrow> addr list \<Rightarrow> nat \<Rightarrow> GradientStructure \<times> StackEntry
   \<Rightarrow> GradientStructure \<times> StackEntry" where
  "first_order_loop expr h [] i (gs, entry) = (gs, entry)"
| "first_order_loop expr h (it # its) i (gs, entry) =
     (let gs1 = (if info_id (h it) > max_id gs then gs\<lparr>max_id := info_id (h it)\<rparr> else gs);
          gs2 = (if info_id (h it) < min_id gs1 then gs1\<lparr>min_id := info_id (h it)\<rparr> else gs1);
          dx = EvaluateDerivative expr h (info_id (h it))
      in first_order_loop expr h its (i + 1) (gs2, entry\<lparr>first := (first entry)[i := dx]\<rparr>))"

text \<open>The case \<open>GRADIENT\<close> (lines 336-345).\<close>

fun gradient_loop :: "Expression \<Rightarrow> heap \<Rightarrow> addr list \<Rightarrow> nat \<Rightarrow> StackEntry \<Rightarrow> StackEntry" where
  "gradient_loop expr h [] i entry = entry"
| "gradient_loop expr h (it # its) i entry =
     (let dx = EvaluateDerivative expr h (info_id (h it))
      in gradient_loop expr h its (i + 1) (entry\<lparr>first := (first entry)[i := dx]\<rparr>))"

definition bump_dependence_level :: "addr \<Rightarrow> heap \<Rightarrow> heap" where
  "bump_dependence_level a h = h(a := (h a)\<lparr>dependence_level := dependence_level (h a) + 1\<rparr>)"

text \<open>
  The case \<open>SECOND_ORDER_MIXED_PARTIALS\<close> (lines 233-269): the loop over \<open>jt\<close>, then the
  loop over \<open>it\<close>. \<open>wa\<close> is the address that \<open>entry.w\<close> holds, which is \<open>this->info\<close>.
\<close>

fun second_mixed_inner ::
  "Expression \<Rightarrow> heap \<Rightarrow> addr \<Rightarrow> nat \<Rightarrow> addr list \<Rightarrow> nat \<Rightarrow> StackEntry \<Rightarrow> StackEntry" where
  "second_mixed_inner expr h it i [] j entry = entry"
| "second_mixed_inner expr h it i (jt # jts) j entry =
     (let dxx = EvaluateDerivative2 expr h (info_id (h it)) (info_id (h jt));
          e1 = entry\<lparr>second_mixed := (second_mixed entry)[i * length (first entry) + j := dxx]\<rparr>;
          e2 = (if i > 0 \<and> i \<noteq> j
                then e1\<lparr>second_mixed := (second_mixed e1)[j * length (first e1) + i := dxx]\<rparr>
                else e1)
      in second_mixed_inner expr h it i jts (j + 1) e2)"

fun second_mixed_outer ::
  "Expression \<Rightarrow> addr \<Rightarrow> nat \<Rightarrow> addr list \<Rightarrow> addr list \<Rightarrow> nat \<Rightarrow> heap \<times> StackEntry
   \<Rightarrow> heap \<times> StackEntry" where
  "second_mixed_outer expr wa index all_ids [] i (h, entry) = (h, entry)"
| "second_mixed_outer expr wa index all_ids (it # its) i (h, entry) =
     (let h1 = h(wa := (h wa)\<lparr>dependencies := IDSet_insert it (dependencies (h wa))\<rparr>);
          h2 = (if has_nl_interaction (h1 it) \<or> is_nl (h1 it)
                then h1(it := (h1 it)\<lparr>push_start := index\<rparr>) else h1);
          h3 = bump_dependence_level it h2;
          dx = EvaluateDerivative expr h3 (info_id (h3 it));
          e1 = entry\<lparr>first := (first entry)[i := dx]\<rparr>;
          e2 = second_mixed_inner expr h3 it i all_ids 0 e1
      in second_mixed_outer expr wa index all_ids its (i + 1) (h3, e2))"

text \<open>The case \<open>THIRD_ORDER_MIXED_PARTIALS\<close> (lines 270-335): the loops over \<open>kt\<close>, \<open>jt\<close>, \<open>it\<close>.\<close>

fun third_mixed_k ::
  "Expression \<Rightarrow> heap \<Rightarrow> addr \<Rightarrow> addr \<Rightarrow> nat \<Rightarrow> nat \<Rightarrow> addr list \<Rightarrow> nat \<Rightarrow> StackEntry
   \<Rightarrow> StackEntry" where
  "third_mixed_k expr h it jt i j [] k entry = entry"
| "third_mixed_k expr h it jt i j (kt # kts) k entry =
     (let dxxx = EvaluateDerivative3 expr h (info_id (h it)) (info_id (h jt)) (info_id (h kt))
      in third_mixed_k expr h it jt i j kts (k + 1)
           (entry\<lparr>third_mixed := (third_mixed entry)
              [i * length (first entry) * length (first entry) + j * length (first entry) + k := dxxx]\<rparr>))"

fun third_mixed_j ::
  "Expression \<Rightarrow> heap \<Rightarrow> addr \<Rightarrow> nat \<Rightarrow> addr list \<Rightarrow> addr list \<Rightarrow> nat \<Rightarrow> StackEntry
   \<Rightarrow> StackEntry" where
  "third_mixed_j expr h it i all_ids [] j entry = entry"
| "third_mixed_j expr h it i all_ids (jt # jts) j entry =
     (let dxx = EvaluateDerivative2 expr h (info_id (h it)) (info_id (h jt));
          e1 = entry\<lparr>second_mixed := (second_mixed entry)[i * length (first entry) + j := dxx]\<rparr>;
          e2 = third_mixed_k expr h it jt i j all_ids 0 e1
      in third_mixed_j expr h it i all_ids jts (j + 1) e2)"

fun third_mixed_outer ::
  "Expression \<Rightarrow> addr \<Rightarrow> nat \<Rightarrow> addr list \<Rightarrow> addr list \<Rightarrow> nat \<Rightarrow> heap \<times> StackEntry
   \<Rightarrow> heap \<times> StackEntry" where
  "third_mixed_outer expr wa index all_ids [] i (h, entry) = (h, entry)"
| "third_mixed_outer expr wa index all_ids (it # its) i (h, entry) =
     (let h1 = h(wa := (h wa)\<lparr>dependencies := IDSet_insert it (dependencies (h wa))\<rparr>);
          h2 = (if has_nl_interaction (h1 it) \<or> is_nl (h1 it)
                then h1(it := (h1 it)\<lparr>push_start := index\<rparr>) else h1);
          h3 = bump_dependence_level it h2;
          dx = EvaluateDerivative expr h3 (info_id (h3 it));
          e1 = entry\<lparr>first := (first entry)[i := dx]\<rparr>;
          e2 = third_mixed_j expr h3 it i all_ids all_ids 0 e1
      in third_mixed_outer expr wa index all_ids its (i + 1) (h3, e2))"

text \<open>
  The case \<open>GRADIENT_AND_HESSIAN\<close> (lines 346-371): the loop over \<open>jt\<close> leaves through
  \<open>break\<close> when \<open>j == i\<close>, after the two stores.
\<close>

fun hessian_inner ::
  "Expression \<Rightarrow> heap \<Rightarrow> addr \<Rightarrow> nat \<Rightarrow> addr list \<Rightarrow> nat \<Rightarrow> StackEntry \<Rightarrow> StackEntry" where
  "hessian_inner expr h it i [] j entry = entry"
| "hessian_inner expr h it i (jt # jts) j entry =
     (let dxx = EvaluateDerivative2 expr h (info_id (h it)) (info_id (h jt));
          e1 = entry\<lparr>second_mixed := (second_mixed entry)[i * length (first entry) + j := dxx]\<rparr>;
          e2 = (if i > 0 \<and> i \<noteq> j
                then e1\<lparr>second_mixed := (second_mixed e1)[j * length (first e1) + i := dxx]\<rparr>
                else e1)
      in if j = i then e2 else hessian_inner expr h it i jts (j + 1) e2)"

fun hessian_outer ::
  "Expression \<Rightarrow> addr list \<Rightarrow> addr list \<Rightarrow> nat \<Rightarrow> heap \<times> StackEntry \<Rightarrow> heap \<times> StackEntry" where
  "hessian_outer expr all_ids [] i (h, entry) = (h, entry)"
| "hessian_outer expr all_ids (it # its) i (h, entry) =
     (let h1 = bump_dependence_level it h;
          dx = EvaluateDerivative expr h1 (info_id (h1 it));
          e1 = entry\<lparr>first := (first entry)[i := dx]\<rparr>;
          e2 = hessian_inner expr h1 it i all_ids 0 e1
      in hessian_outer expr all_ids its (i + 1) (h1, e2))"

text \<open>The case \<open>DYNAMIC_RECORD\<close> (lines 372-380).\<close>

fun dynamic_record_loop :: "addr list \<Rightarrow> heap \<Rightarrow> heap" where
  "dynamic_record_loop [] h = h"
| "dynamic_record_loop (it # its) h = dynamic_record_loop its (bump_dependence_level it h)"

text \<open>
  The switch of \<open>Assign_p\<close> (lines 182-385). The statement before the first \<open>case\<close> label
  (line 184) is never reached by the switch and has no counterpart here, and neither have
  the statements that follow \<open>exit(0)\<close> under \<open>SECOND_ORDER\<close> and \<open>THIRD_ORDER\<close>.
\<close>

definition Assign_switch ::
  "Variable \<Rightarrow> Expression \<Rightarrow> nat \<Rightarrow> GradientStructure \<times> heap \<times> StackEntry
   \<Rightarrow> error + GradientStructure \<times> heap \<times> StackEntry" where
  "Assign_switch this expr index s =
     (let gs = fst s; h = fst (snd s); entry = snd (snd s) in
      case derivative_trace_level gs of
        FIRST_ORDER \<Rightarrow>
          (let entry1 = entry\<lparr>w := Some (info this)\<rparr>;
               r = first_order_loop expr h (ids entry1) 0 (gs, entry1)
           in Inr (fst r, h, snd r))
      | SECOND_ORDER \<Rightarrow> Inl (Exit (not_yet_available ''SECOND_ORDER'') 0)
      | THIRD_ORDER \<Rightarrow> Inl (Exit (not_yet_available ''THIRD_ORDER'') 0)
      | SECOND_ORDER_MIXED_PARTIALS \<Rightarrow>
          (let entry1 = entry\<lparr>w := Some (info this)\<rparr>;
               wa = info this;
               h1 = h(wa := (h wa)\<lparr>is_dependent := 1\<rparr>);
               h2 = h1(wa := (h1 wa)\<lparr>is_nl := IsNonlinear expr h1\<rparr>);
               entry2 = entry1\<lparr>second_mixed :=
                  resize (length (ids entry1) * length (ids entry1)) 0.0 (second_mixed entry1)\<rparr>;
               h3 = MakeNLInteractions expr False h2;
               r = second_mixed_outer expr wa index (ids entry2) (ids entry2) 0 (h3, entry2);
               h4 = bump_dependence_level (info this) (fst r)
           in Inr (gs, h4, snd r))
      | THIRD_ORDER_MIXED_PARTIALS \<Rightarrow>
          (let entry1 = entry\<lparr>w := Some (info this)\<rparr>;
               wa = info this;
               h1 = h(wa := (h wa)\<lparr>is_dependent := 1\<rparr>);
               h2 = h1(wa := (h1 wa)\<lparr>is_nl := IsNonlinear expr h1\<rparr>);
               entry2 = entry1\<lparr>second_mixed :=
                  resize (length (ids entry1) * length (ids entry1)) 0.0 (second_mixed entry1)\<rparr>;
               entry3 = entry2\<lparr>third_mixed :=
                  resize (length (ids entry2) * length (ids entry2) * length (ids entry2)) 0.0
                    (third_mixed entry2)\<rparr>;
               h3 = MakeNLInteractions expr False h2;
               r = third_mixed_outer expr wa index (ids entry3) (ids entry3) 0 (h3, entry3)
           in Inr (gs, fst r, snd r))
      | GRADIENT \<Rightarrow>
          (let entry1 = entry\<lparr>w := Some (info this)\<rparr>
           in Inr (gs, h, gradient_loop expr h (ids entry1) 0 entry1))
      | GRADIENT_AND_HESSIAN \<Rightarrow>
          (let entry1 = entry\<lparr>w := Some (info this)\<rparr>;
               entry2 = entry1\<lparr>second_mixed :=
                  resize (length (ids entry1) * length (ids entry1)) 0.0 (second_mixed entry1)\<rparr>;
               r = hessian_outer expr (ids entry2) (ids entry2) 0 (h, entry2)
           in Inr (gs, fst r, snd r))
      | DYNAMIC_RECORD \<Rightarrow>
          (let entry1 = entry\<lparr>w := Some (info this)\<rparr>;
               h1 = dynamic_record_loop (ids entry1) h;
               entry2 = entry1\<lparr>dyn_exp := Some (GetDynamicExpession expr)\<rparr>
           in Inr (gs, h1, entry2))
      | UNKNOWN_TRACE_LEVEL \<Rightarrow> Inl (Exit ''Unkown derivative trace level.'' 0))"

text \<open>
  \<open>Variable::Assign_p\<close> (lines 160-388). The state is the tape and the heap. The result
  is the state in which the call returns (\<open>Inr\<close>), or the exit of the program together
  with the state it had reached at that moment (\<open>Inl\<close>): the entry then holds what the
  statements before the switch had stored in it.
\<close>

type_synonym state = "GradientStructure \<times> heap"

definition Assign_p :: "Variable \<Rightarrow> Expression \<Rightarrow> state \<Rightarrow> error \<times> state + state" where
  "Assign_p this expr s =
     (let gs = fst s; h = snd s in
      if recording gs then
        (let index = fst (NextIndex gs);
             gs1 = snd (NextIndex gs);
             entry = gradient_stack gs1 ! index;
             entry1 = entry\<lparr>ids := PushIds expr (ids entry)\<rparr>;
             entry2 = entry1\<lparr>first := resize (length (ids entry1)) 0.0 (first entry1)\<rparr>
         in case Assign_switch this expr index (gs1, h, entry2) of
              Inl e \<Rightarrow> Inl (e, (gs1\<lparr>gradient_stack := (gradient_stack gs1)[index := entry2]\<rparr>, h))
            | Inr r \<Rightarrow>
                Inr ((fst r)\<lparr>gradient_stack := (gradient_stack (fst r))[index := snd (snd r)]\<rparr>,
                     SetValue this (GetValue expr (fst (snd r))) (fst (snd r))))
      else Inr (gs, SetValue this (GetValue expr h) h))"

text \<open>\<open>Variable::Assign\<close> (lines 473-476).\<close>

definition Assign :: "Variable \<Rightarrow> Expression \<Rightarrow> state \<Rightarrow> error \<times> state + state" where
  "Assign this expr s = Assign_p this expr s"

text \<open>
  The three assignment operators (lines 478-486 and 503-507). The state holds the one
  tape \<open>gradient_structure_g\<close> that both expression assignments record on.
\<close>

definition operator_assign_REAL_T :: "Variable \<Rightarrow> real \<Rightarrow> state \<Rightarrow> error \<times> state + state" where
  "operator_assign_REAL_T this val s = Inr (fst s, SetValue this val (snd s))"

definition operator_assign_Variable :: "Variable \<Rightarrow> Variable \<Rightarrow> state \<Rightarrow> error \<times> state + state" where
  "operator_assign_Variable this other s = Assign_p this (Variable_node other) s"

definition operator_assign_Expression ::
  "Variable \<Rightarrow> Expression \<Rightarrow> state \<Rightarrow> error \<times> state + state" where
  "operator_assign_Expression this expr s = Assign_p this expr s"

text \<open>The state an assignment ends in, and the exit it ends with, if any.\<close>

definition final_state :: "error \<times> state + state \<Rightarrow> state" where
  "final_state r = (case r of Inl x \<Rightarrow> snd x | Inr s \<Rightarrow> s)"

definition exit_of :: "error \<times> state + state \<Rightarrow> error option" where
  "exit_of r = (case r of Inl x \<Rightarrow> Some (fst x) | Inr s \<Rightarrow> None)"



text \<open>
  The number that the case \<open>GRADIENT_AND_HESSIAN\<close> computes for the pair of leaves \<open>i\<close> and
  \<open>j\<close> while it fills row \<open>i\<close>: the second derivative with respect to the identifiers of
  the two leaves, read from the heap in which \<open>dependence_level\<close> of the leaves 0 to \<open>i\<close> has
  been incremented.
\<close>

definition hessian_cell :: "Expression \<Rightarrow> heap \<Rightarrow> addr list \<Rightarrow> nat \<Rightarrow> nat \<Rightarrow> real" where
  "hessian_cell expr h leaves i j =
     (let h1 = fold bump_dependence_level (take (Suc i) leaves) h
      in EvaluateDerivative2 expr h1 (info_id (h1 (leaves ! i))) (info_id (h1 (leaves ! j))))"

section \<open>Sample objects\<close>

text \<open>
  Leaves at the addresses 0 and 1 with the identifiers 5 and 6 and the values 2 and 3, a
  leaf with the identifier 7 and the value 0 at every other address, the unbounded
  variable that owns the leaf at a given address, and a recording tape that holds no
  record yet and whose identifier range is empty (\<open>min_id\<close> is the largest identifier,
  \<open>max_id\<close> is 0).
\<close>

definition info_at :: "32 word \<Rightarrow> real \<Rightarrow> VariableInfo" where
  "info_at n x =
     \<lparr> info_id = n, vvalue = x, dvalue = 0, is_dependent = 0, is_nl = False,
       has_nl_interaction = False, dependence_level = 0, dependencies = [], push_start = 0 \<rparr>"

definition heap0 :: heap where
  "heap0 = (\<lambda>a. if a = 0 then info_at 5 2 else if a = 1 then info_at 6 3 else info_at 7 0)"

definition var_at :: "addr \<Rightarrow> Variable" where
  "var_at a =
     \<lparr> info = a, mapped_info = a, min_boundary_m = 0, max_boundary_m = 0, bounded_m = False \<rparr>"

definition tape0 :: "DerivativeTraceLevel \<Rightarrow> GradientStructure" where
  "tape0 level =
     \<lparr> recording = True, derivative_trace_level = level, gradient_stack = [],
       stack_current = 0, min_id = - 1, max_id = 0 \<rparr>"

text \<open>
  A variable on \<open>double\<close> that is not bounded yet, and the heap in which its value is a
  given number.
\<close>

definition var_double :: "double Variable_of" where
  "var_double =
     \<lparr> info = 0, mapped_info = 0, min_boundary_m = Finite 0, max_boundary_m = Finite 0,
       bounded_m = False \<rparr>"

definition heap_double_of :: "double \<Rightarrow> heap_double" where
  "heap_double_of x =
     (\<lambda>a. \<lparr> info_id = 5, vvalue = x, dvalue = Finite 0, is_dependent = 0, is_nl = False,
             has_nl_interaction = False, dependence_level = 0, dependencies = [],
             push_start = 0 \<rparr>)"

text \<open>
  The binary64 value nearest to 0.2, and the binary64 value that follows it.
\<close>

definition double_0_2 :: real where
  "double_0_2 = 3602879701896397 / 2 ^ 54"

definition double_0_2_next :: real where
  "double_0_2_next = 7205759403792795 / 2 ^ 55"

text \<open>
  Two ordered binary64 values whose sum exceeds the largest finite one.
\<close>

definition half_of_largest :: real where
  "half_of_largest = 2 ^ 1023"

definition three_quarters_of_largest :: real where
  "three_quarters_of_largest = 3 * 2 ^ 1022"

section \<open>Binary64 arithmetic: rounding\<close>

lemma round_half_even_near:
  assumes "\<bar>q - of_int m\<bar> < 1 / 2"
  shows "round_half_even q = m"
proof (cases "of_int m \<le> q")
  case True
  with assms have "\<lfloor>q\<rfloor> = m" by (intro floor_unique) auto
  with assms True show ?thesis by (simp add: round_half_even_def)
next
  case False
  with assms have f: "\<lfloor>q\<rfloor> = m - 1" by (intro floor_unique) auto
  from False assms have "q - of_int (m - 1) > 1 / 2" by auto
  with f show ?thesis by (simp add: round_half_even_def)
qed

lemma round_half_even_of_int: "round_half_even (of_int k) = k"
  by (rule round_half_even_near) simp

lemma round_half_even_error: "\<bar>of_int (round_half_even q) - q\<bar> \<le> 1 / 2"
proof -
  have "of_int \<lfloor>q\<rfloor> \<le> q" "q < of_int \<lfloor>q\<rfloor> + 1" by linarith+
  then show ?thesis by (auto simp add: round_half_even_def)
qed

lemma exponent_eq:
  assumes "2 powr of_int e \<le> \<bar>x\<bar>" and "\<bar>x\<bar> < 2 powr of_int (e + 1)" and "- 1022 \<le> e"
  shows "exponent x = e"
proof -
  from assms(1) have pos: "0 < \<bar>x\<bar>" by (rule less_le_trans [rotated]) simp
  have "\<lfloor>log 2 \<bar>x\<bar>\<rfloor> = e"
    using assms(1,2) pos by (simp add: floor_log_eq_powr_iff)
  with assms(3) show ?thesis by (simp add: exponent_def)
qed

lemma round_to_grid_near:
  assumes "2 powr of_int e \<le> \<bar>x\<bar>" and "\<bar>x\<bar> < 2 powr of_int (e + 1)" and "- 1022 \<le> e"
    and "\<bar>x / 2 powr of_int (e - 52) - of_int m\<bar> < 1 / 2"
  shows "round_to_grid x = of_int m * 2 powr of_int (e - 52)"
proof -
  from assms(1) have "0 < \<bar>x\<bar>" by (rule less_le_trans [rotated]) simp
  then have nz: "x \<noteq> 0" by auto
  have u: "ulp x = 2 powr of_int (e - 52)"
    using exponent_eq [OF assms(1-3)] by (simp add: ulp_def)
  show ?thesis
    using nz assms(4) by (simp add: round_to_grid_def u round_half_even_near)
qed

lemma ulp_le:
  assumes "x \<noteq> 0" and "\<bar>x\<bar> < 2 powr of_int k" and "- 1021 \<le> k"
  shows "ulp x \<le> 2 powr of_int (k - 53)"
proof -
  from assms(1) have pos: "0 < \<bar>x\<bar>" by simp
  have "log 2 \<bar>x\<bar> < of_int k"
    using assms(2) pos by (simp add: log_less_iff)
  then have "\<lfloor>log 2 \<bar>x\<bar>\<rfloor> < k" by (simp add: floor_less_iff)
  with assms(3) have "exponent x \<le> k - 1" by (simp add: exponent_def)
  then have "of_int (exponent x - 52) \<le> (of_int (k - 53) :: real)" by simp
  then show ?thesis unfolding ulp_def by (intro powr_mono) simp_all
qed

lemma round_to_grid_error:
  assumes "\<bar>x\<bar> < 2 powr of_int k" and "- 1021 \<le> k"
  shows "\<bar>round_to_grid x - x\<bar> \<le> 2 powr of_int (k - 54)"
proof (cases "x = 0")
  case True
  then show ?thesis by (simp add: round_to_grid_def)
next
  case False
  have up: "0 < ulp x" by (simp add: ulp_def)
  have "round_to_grid x - x = (of_int (round_half_even (x / ulp x)) - x / ulp x) * ulp x"
    using False up by (simp add: round_to_grid_def field_simps)
  then have "\<bar>round_to_grid x - x\<bar> = \<bar>of_int (round_half_even (x / ulp x)) - x / ulp x\<bar> * ulp x"
    using up by (simp add: abs_mult)
  also have "\<dots> \<le> 1 / 2 * ulp x"
    using up round_half_even_error [of "x / ulp x"] by (intro mult_right_mono) simp_all
  also have "\<dots> \<le> 1 / 2 * 2 powr of_int (k - 53)"
    using ulp_le [OF False assms] by simp
  also have "\<dots> = 2 powr of_int (k - 54)"
  proof -
    have "(of_int (k - 53) :: real) = of_int (k - 54) + 1" by simp
    then show ?thesis by (simp only: powr_add) simp
  qed
  finally show ?thesis .
qed

lemma round_to_grid_of_int:
  assumes "\<bar>n\<bar> < 2 ^ 53"
  shows "round_to_grid (of_int n) = of_int n"
proof (cases "n = 0")
  case True
  then show ?thesis by (simp add: round_to_grid_def)
next
  case False
  define e where "e = \<lfloor>log 2 \<bar>of_int n :: real\<bar>\<rfloor>"
  from False have "1 \<le> \<bar>n\<bar>" by simp
  then have "(1::real) \<le> of_int \<bar>n\<bar>" by (simp only: of_int_1_le_iff)
  then have one: "1 \<le> \<bar>of_int n :: real\<bar>" by simp
  then have pos: "0 < \<bar>of_int n :: real\<bar>" by linarith
  from one have "0 \<le> log 2 \<bar>of_int n :: real\<bar>" by simp
  then have e0: "0 \<le> e" by (simp add: e_def)
  from assms have "(of_int \<bar>n\<bar> :: real) < of_int (2 ^ 53)" by (simp only: of_int_less_iff)
  then have "\<bar>of_int n :: real\<bar> < 2 ^ 53" by simp
  then have "\<bar>of_int n :: real\<bar> < 2 powr 53" by simp
  then have "log 2 \<bar>of_int n :: real\<bar> < 53" using pos by (simp add: log_less_iff)
  then have e52: "e \<le> 52" by (simp add: e_def floor_less_iff)
  have ex: "exponent (of_int n) = e" using e0 by (simp add: exponent_def e_def)
  define j where "j = nat (52 - e)"
  have "(of_int (e - 52) :: real) = - real j" using e52 by (simp add: j_def)
  then have "2 powr of_int (e - 52) = inverse ((2::real) powr real j)"
    by (simp only: powr_minus)
  then have u: "ulp (of_int n) = 1 / 2 ^ j"
    by (simp add: ulp_def ex powr_realpow inverse_eq_divide)
  have q: "of_int n / ulp (of_int n) = (of_int (n * 2 ^ j) :: real)" by (simp add: u)
  have "round_to_grid (of_int n) = of_int (n * 2 ^ j) * (1 / 2 ^ j)"
    using False unfolding round_to_grid_def q round_half_even_of_int by (simp add: u)
  then show ?thesis by simp
qed

lemma overflow_threshold_large: "2 powr 1023 < overflow_threshold"
proof -
  have "(2::real) powr 1023 = 2 ^ 1023" by simp
  also have "\<dots> < 2 ^ 1024 - 2 ^ 970" by simp
  finally show ?thesis by (simp add: overflow_threshold_def)
qed

lemma round_double_of_int:
  assumes "\<bar>n\<bar> < 2 ^ 53"
  shows "round_double (of_int n) = Finite (of_int n)"
proof -
  from assms have "(of_int \<bar>n\<bar> :: real) < of_int (2 ^ 53)" by (simp only: of_int_less_iff)
  then have "\<bar>of_int n :: real\<bar> < 2 ^ 53" by simp
  also have "\<dots> \<le> 2 powr 1023" by simp
  finally have "\<not> overflow_threshold \<le> \<bar>of_int n :: real\<bar>"
    using overflow_threshold_large by linarith
  then show ?thesis by (simp add: round_double_def round_to_grid_of_int [OF assms])
qed

lemma round_double_error:
  assumes "\<bar>x\<bar> < 2 powr of_int k" and "- 1021 \<le> k" and "k \<le> 1023"
  obtains y where "round_double x = Finite y" and "\<bar>y - x\<bar> \<le> 2 powr of_int (k - 54)"
proof -
  from assms(3) have "(2::real) powr of_int k \<le> 2 powr 1023" by (intro powr_mono) simp_all
  with assms(1) overflow_threshold_large have "\<not> overflow_threshold \<le> \<bar>x\<bar>" by linarith
  then have "round_double x = Finite (round_to_grid x)" by (simp add: round_double_def)
  with round_to_grid_error [OF assms(1,2)] that show ?thesis by blast
qed

lemma round_double_near:
  assumes "2 powr of_int e \<le> \<bar>x\<bar>" and "\<bar>x\<bar> < 2 powr of_int (e + 1)"
    and "- 1022 \<le> e" and "e \<le> 1022"
    and "\<bar>x / 2 powr of_int (e - 52) - of_int m\<bar> < 1 / 2"
  shows "round_double x = Finite (of_int m * 2 powr of_int (e - 52))"
proof -
  from assms(4) have "(2::real) powr of_int (e + 1) \<le> 2 powr 1023" by (intro powr_mono) simp_all
  with assms(2) overflow_threshold_large have "\<not> overflow_threshold \<le> \<bar>x\<bar>" by linarith
  then show ?thesis
    by (simp add: round_double_def round_to_grid_near [OF assms(1,2,3,5)])
qed

lemma round_half_even_ge:
  assumes "of_int n \<le> q"
  shows "n \<le> round_half_even q"
proof -
  from assms have "n \<le> \<lfloor>q\<rfloor>" by (simp add: le_floor_iff)
  then show ?thesis by (simp add: round_half_even_def)
qed

lemma round_half_even_le:
  assumes "q \<le> of_int n"
  shows "round_half_even q \<le> n"
proof (cases "q = of_int \<lfloor>q\<rfloor>")
  case True
  then have "round_half_even q = \<lfloor>q\<rfloor>" by (simp add: round_half_even_def)
  moreover from assms have "\<lfloor>q\<rfloor> \<le> n" by (simp add: floor_le_iff)
  ultimately show ?thesis by simp
next
  case False
  have "of_int \<lfloor>q\<rfloor> \<le> q" by simp
  with False have "of_int \<lfloor>q\<rfloor> < q" by linarith
  with assms have "(of_int \<lfloor>q\<rfloor> :: real) < of_int n" by linarith
  then have "\<lfloor>q\<rfloor> < n" by (simp only: of_int_less_iff)
  then show ?thesis by (simp add: round_half_even_def)
qed

lemma ulp_positive: "0 < ulp x"
  by (simp add: ulp_def)

lemma exponent_mono:
  assumes "\<bar>x\<bar> \<le> \<bar>y\<bar>" and "x \<noteq> 0"
  shows "exponent x \<le> exponent y"
proof -
  from assms have "0 < \<bar>x\<bar>" "0 < \<bar>y\<bar>" by simp_all
  with assms(1) have "log 2 \<bar>x\<bar> \<le> log 2 \<bar>y\<bar>" by simp
  then have "\<lfloor>log 2 \<bar>x\<bar>\<rfloor> \<le> \<lfloor>log 2 \<bar>y\<bar>\<rfloor>" by (rule floor_mono)
  then show ?thesis by (simp add: exponent_def)
qed

text \<open>A nonzero real lies below the next power of two above its exponent.\<close>

lemma less_next_power:
  assumes "x \<noteq> 0"
  shows "\<bar>x\<bar> < 2 powr of_int (exponent x + 1)"
proof -
  from assms have pos: "0 < \<bar>x\<bar>" by simp
  have "log 2 \<bar>x\<bar> < of_int (\<lfloor>log 2 \<bar>x\<bar>\<rfloor> + 1)" by linarith
  also have "\<dots> \<le> of_int (exponent x + 1)" by (simp add: exponent_def)
  finally have "log 2 \<bar>x\<bar> < of_int (exponent x + 1)" .
  then show ?thesis using pos by (simp add: log_less_iff)
qed

text \<open>Above the subnormal range a real is at least the power of two of its exponent.\<close>

lemma power_le_normal:
  assumes "x \<noteq> 0" and "- 1022 < exponent x"
  shows "2 powr of_int (exponent x) \<le> \<bar>x\<bar>"
proof -
  from assms have pos: "0 < \<bar>x\<bar>" by simp
  from assms(2) have "exponent x = \<lfloor>log 2 \<bar>x\<bar>\<rfloor>" by (simp add: exponent_def max_def split: if_splits)
  then have "of_int (exponent x) \<le> log 2 \<bar>x\<bar>" by simp
  then show ?thesis using pos by (simp add: le_log_iff)
qed

lemma power_over_ulp: "2 powr of_int (exponent x) / ulp x = 2 ^ 52"
proof -
  have "2 powr of_int (exponent x) / ulp x = 2 powr (of_int (exponent x) - of_int (exponent x - 52))"
    unfolding ulp_def by (simp only: powr_diff)
  also have "\<dots> = 2 powr 52" by simp
  finally show ?thesis by simp
qed

lemma round_half_even_minus: "round_half_even (- q) = - round_half_even q"
proof (cases "q = of_int \<lfloor>q\<rfloor>")
  case True
  then obtain k where "q = of_int k" ..
  then show ?thesis
    using round_half_even_of_int [of k] round_half_even_of_int [of "- k"] by simp
next
  case False
  have "of_int \<lfloor>q\<rfloor> \<le> q" "q < of_int \<lfloor>q\<rfloor> + 1" by linarith+
  with False have strict: "of_int \<lfloor>q\<rfloor> < q" by linarith
  have fl: "\<lfloor>- q\<rfloor> = - \<lfloor>q\<rfloor> - 1"
  proof (rule floor_unique)
    have "of_int (- \<lfloor>q\<rfloor> - 1) = - of_int \<lfloor>q\<rfloor> - (1::real)" by simp
    then show "of_int (- \<lfloor>q\<rfloor> - 1) \<le> - q" "- q < of_int (- \<lfloor>q\<rfloor> - 1) + 1"
      using strict \<open>q < of_int \<lfloor>q\<rfloor> + 1\<close> by linarith+
  qed
  show ?thesis
    unfolding round_half_even_def fl using strict \<open>q < of_int \<lfloor>q\<rfloor> + 1\<close>
    by (auto simp add: algebra_simps)
qed

lemma exponent_minus: "exponent (- x) = exponent x"
  by (simp add: exponent_def)

lemma round_to_grid_minus: "round_to_grid (- x) = - round_to_grid x"
  by (simp add: round_to_grid_def ulp_def exponent_minus round_half_even_minus)

text \<open>
  Rounding never crosses a value of the grid: a fixed point of the rounding that is below
  a real is not above its rounding.
\<close>

lemma round_to_grid_ge:
  assumes fixed: "round_to_grid g = g" and le: "g \<le> x"
  shows "g \<le> round_to_grid x"
proof (cases "x = 0")
  case True
  with le show ?thesis by (simp add: round_to_grid_def)
next
  case x: False
  let ?u = "ulp x"
  have u: "0 < ?u" by (rule ulp_positive)
  have rx: "round_to_grid x = of_int (round_half_even (x / ?u)) * ?u"
    using x by (simp add: round_to_grid_def)
  have lower: "of_int n * ?u \<le> round_to_grid x" if "of_int n \<le> x / ?u" for n
  proof -
    from that have "n \<le> round_half_even (x / ?u)" by (rule round_half_even_ge)
    then have "(of_int n :: real) \<le> of_int (round_half_even (x / ?u))" by simp
    with u show ?thesis unfolding rx by (intro mult_right_mono) simp_all
  qed
  have same: ?thesis if "g \<noteq> 0" and "exponent g = exponent x"
  proof -
    from that(2) have ug: "ulp g = ?u" by (simp add: ulp_def)
    from fixed that(1) have g: "g = of_int (round_half_even (g / ?u)) * ?u"
      by (simp add: round_to_grid_def ug)
    from le u have "g / ?u \<le> x / ?u" by (simp add: divide_right_mono)
    moreover from g u have "of_int (round_half_even (g / ?u)) = g / ?u"
      by (simp add: field_simps)
    ultimately have "of_int (round_half_even (g / ?u)) \<le> x / ?u" by simp
    from lower [OF this] g show ?thesis by simp
  qed
  consider (zero) "g = 0" | (pos) "0 < g" | (negpos) "g < 0" "0 < x" | (neg) "g < 0" "x < 0"
    using x by linarith
  then show ?thesis
  proof cases
    case zero
    with le u have "of_int 0 \<le> x / ?u" by simp
    from lower [OF this] zero show ?thesis by simp
  next
    case pos
    with le have "\<bar>g\<bar> \<le> \<bar>x\<bar>" "g \<noteq> 0" by simp_all
    then have "exponent g \<le> exponent x" by (rule exponent_mono)
    then consider "exponent g = exponent x" | "exponent g < exponent x" by linarith
    then show ?thesis
    proof cases
      case 1
      with pos same show ?thesis by simp
    next
      case 2
      have "- 1022 \<le> exponent g" by (simp add: exponent_def)
      with 2 have "- 1022 < exponent x" by linarith
      from power_le_normal [OF x this] pos le have px: "2 powr of_int (exponent x) \<le> x" by simp
      from 2 have "(of_int (exponent g + 1) :: real) \<le> of_int (exponent x)" by simp
      then have "(2::real) powr of_int (exponent g + 1) \<le> 2 powr of_int (exponent x)"
        by (intro powr_mono) simp_all
      moreover have "g < 2 powr of_int (exponent g + 1)"
        using less_next_power [of g] pos by simp
      ultimately have gp: "g < 2 powr of_int (exponent x)" by linarith
      from px u have "2 powr of_int (exponent x) / ?u \<le> x / ?u" by (simp add: divide_right_mono)
      then have "of_int (2 ^ 52) \<le> x / ?u" by (simp add: power_over_ulp)
      from lower [OF this] have "2 ^ 52 * ?u \<le> round_to_grid x" by simp
      moreover have "2 ^ 52 * ?u = 2 powr of_int (exponent x)"
        using power_over_ulp [of x] u by (simp add: field_simps)
      ultimately show ?thesis using gp by linarith
    qed
  next
    case negpos
    with u have "of_int 0 \<le> x / ?u" by simp
    from lower [OF this] negpos show ?thesis by simp
  next
    case neg
    with le have "\<bar>x\<bar> \<le> \<bar>g\<bar>" by simp
    then have "exponent x \<le> exponent g" using x by (rule exponent_mono)
    then consider "exponent g = exponent x" | "exponent x < exponent g" by linarith
    then show ?thesis
    proof cases
      case 1
      with neg same show ?thesis by simp
    next
      case 2
      have "- 1022 \<le> exponent x" by (simp add: exponent_def)
      with 2 have "- 1022 < exponent g" by linarith
      with neg power_le_normal [of g] have pg: "2 powr of_int (exponent g) \<le> - g" by simp
      from 2 have "(of_int (exponent x + 1) :: real) \<le> of_int (exponent g)" by simp
      then have pm: "(2::real) powr of_int (exponent x + 1) \<le> 2 powr of_int (exponent g)"
        by (intro powr_mono) simp_all
      have two: "2 powr of_int (exponent x + 1) = 2 ^ 53 * ?u"
      proof -
        have "(of_int (exponent x + 1) :: real) = of_int (exponent x) + 1" by simp
        then have "(2::real) powr of_int (exponent x + 1) = 2 * 2 powr of_int (exponent x)"
          by (simp only: powr_add) simp
        also have "(2::real) powr of_int (exponent x) = 2 ^ 52 * ?u"
          using power_over_ulp [of x] u by (simp add: field_simps)
        finally show ?thesis by simp
      qed
      from less_next_power [OF x] neg have "- (2 powr of_int (exponent x + 1)) < x" by simp
      then have "- (2 ^ 53) * ?u \<le> x" unfolding two by simp
      with u have "of_int (- (2 ^ 53)) \<le> x / ?u" by (simp add: field_simps)
      from lower [OF this] have "- (2 ^ 53 * ?u) \<le> round_to_grid x" by simp
      with two pm pg show ?thesis by linarith
    qed
  qed
qed

lemma round_to_grid_le:
  assumes "round_to_grid g = g" and "x \<le> g"
  shows "round_to_grid x \<le> g"
proof -
  from assms(1) have "round_to_grid (- g) = - g" by (simp add: round_to_grid_minus)
  moreover from assms(2) have "- g \<le> - x" by simp
  ultimately have "- g \<le> round_to_grid (- x)" by (rule round_to_grid_ge)
  then show ?thesis by (simp add: round_to_grid_minus)
qed

text \<open>Twice a value of the grid is on the grid.\<close>

lemma round_to_grid_double:
  assumes fixed: "round_to_grid a = a"
  shows "round_to_grid (2 * a) = 2 * a"
proof (cases "a = 0")
  case True
  then show ?thesis by (simp add: round_to_grid_def)
next
  case a: False
  let ?l = "\<lfloor>log 2 \<bar>a\<bar>\<rfloor>"
  from a have "log 2 \<bar>2 * a\<bar> = 1 + log 2 \<bar>a\<bar>"
    by (simp add: abs_mult log_mult)
  then have l2: "\<lfloor>log 2 \<bar>2 * a\<bar>\<rfloor> = ?l + 1" by simp
  from fixed a have grid: "a = of_int (round_half_even (a / ulp a)) * ulp a"
    by (simp add: round_to_grid_def)
  define n where "n = round_half_even (a / ulp a)"
  from grid have an: "a = of_int n * ulp a" by (simp add: n_def)
  have u: "0 < ulp a" by (rule ulp_positive)
  show ?thesis
  proof (cases "- 1022 \<le> ?l")
    case True
    then have "max (- 1022) (?l + 1) = max (- 1022) ?l + 1" by linarith
    then have "exponent (2 * a) = exponent a + 1"
      unfolding exponent_def l2 .
    then have "ulp (2 * a) = 2 powr (of_int (exponent a - 52) + 1)"
      by (simp add: ulp_def algebra_simps)
    also have "\<dots> = 2 * ulp a"
      unfolding ulp_def by (simp only: powr_add) simp
    finally have u2: "ulp (2 * a) = 2 * ulp a" .
    have "2 * a / ulp (2 * a) = of_int n"
      unfolding u2 using an u by (simp add: field_simps)
    then have "round_half_even (2 * a / ulp (2 * a)) = n"
      by (simp only: round_half_even_of_int)
    then have "round_to_grid (2 * a) = of_int n * (2 * ulp a)"
      using a by (simp add: round_to_grid_def u2)
    also have "\<dots> = 2 * a" using an by simp
    finally show ?thesis .
  next
    case False
    then have "max (- 1022) (?l + 1) = max (- 1022) ?l" by linarith
    then have "exponent (2 * a) = exponent a"
      unfolding exponent_def l2 .
    then have u2: "ulp (2 * a) = ulp a" by (simp add: ulp_def)
    have "2 * a / ulp (2 * a) = of_int (2 * n)"
      unfolding u2 using an u by (simp add: field_simps)
    then have "round_half_even (2 * a / ulp (2 * a)) = 2 * n"
      by (simp only: round_half_even_of_int)
    then have "round_to_grid (2 * a) = of_int (2 * n) * ulp a"
      using a by (simp add: round_to_grid_def u2)
    also have "\<dots> = 2 * a" using an by simp
    finally show ?thesis .
  qed
qed

lemma representable_grid:
  assumes "round_double a = Finite a"
  shows "round_to_grid a = a" and "\<bar>a\<bar> < overflow_threshold"
  using assms by (simp_all add: round_double_def split: if_splits)

text \<open>
  The computed midpoint of two ordered binary64 values whose sum does not overflow is a
  finite value between them.
\<close>

lemma midpoint_within:
  assumes a: "round_double a = Finite a" and b: "round_double b = Finite b"
    and le: "a \<le> b" and sum: "\<bar>a + b\<bar> < overflow_threshold"
  shows "\<exists>m. div_double (add_double (Finite a) (Finite b)) (Finite 2) = Finite m \<and> a \<le> m \<and> m \<le> b"
proof -
  note ga = representable_grid [OF a] and gb = representable_grid [OF b]
  let ?s = "round_to_grid (a + b)"
  have s: "add_double (Finite a) (Finite b) = Finite ?s"
    using sum by (simp add: round_double_def)
  have "2 * a \<le> a + b" "a + b \<le> 2 * b" using le by simp_all
  then have "2 * a \<le> ?s" "?s \<le> 2 * b"
    using round_to_grid_ge [OF round_to_grid_double [OF ga(1)]]
      round_to_grid_le [OF round_to_grid_double [OF gb(1)]] by blast+
  then have h: "a \<le> ?s / 2" "?s / 2 \<le> b" by simp_all
  with ga(2) gb(2) have "\<bar>?s / 2\<bar> < overflow_threshold" by linarith
  then have m: "div_double (Finite ?s) (Finite 2) = Finite (round_to_grid (?s / 2))"
    by (simp add: round_double_def)
  from h have "a \<le> round_to_grid (?s / 2)" "round_to_grid (?s / 2) \<le> b"
    using round_to_grid_ge [OF ga(1)] round_to_grid_le [OF gb(1)] by blast+
  with s m show ?thesis by simp
qed

section \<open>Parameter transformations: results\<close>

lemma Sin_round_trip_exact:
  assumes "min' < val" and "val < max'"
  shows "Sin_Internal2External_exact (Sin_External2Internal_exact val min' max') min' max' = val"
proof -
  let ?d = "max' - min'"
  let ?y = "(2 * val) / ?d - min' / ?d - max' / ?d"
  from assms have d: "0 < ?d" by simp
  have y: "?y = (2 * val - min' - max') / ?d"
    by (simp add: diff_divide_distrib)
  have lo: "- 1 \<le> ?y"
    unfolding y using d assms by (simp add: field_simps)
  have hi: "?y \<le> 1"
    unfolding y using d assms by (simp add: field_simps)
  have "sin (arcsin ?y) = ?y"
    using lo hi by (rule sin_arcsin)
  then have "Sin_Internal2External_exact (Sin_External2Internal_exact val min' max') min' max'
             = min' + 0.5 * ?d * (?y + 1)"
    by (simp add: Sin_Internal2External_exact_def Sin_External2Internal_exact_def)
  also have "\<dots> = val"
    unfolding y using d by (simp add: field_simps)
  finally show ?thesis .
qed

lemma add_double_NaN [simp]: "add_double a NaN = NaN"
  by (cases a) simp_all

lemma mul_double_NaN [simp]: "mul_double a NaN = NaN"
  by (cases a) simp_all

lemma div_double_NaN [simp]: "div_double a NaN = NaN"
  by (cases a) simp_all

lemma sin_lipschitz: "\<bar>sin x - sin y\<bar> \<le> \<bar>x - y\<bar>" for x y :: real
proof -
  have "\<bar>sin x - sin y\<bar> = 2 * \<bar>sin ((x - y) / 2)\<bar> * \<bar>cos ((x + y) / 2)\<bar>"
    by (simp add: sin_diff_sin abs_mult)
  also have "\<dots> \<le> 2 * \<bar>(x - y) / 2\<bar> * 1"
    by (intro mult_mono mult_left_mono abs_sin_x_le_abs_x abs_cos_le_one) simp_all
  finally show ?thesis by simp
qed

text \<open>
  The library that rounds correctly is accurate.
\<close>

lemma correctly_rounded_accurate: "accurate correctly_rounded"
proof -
  have err: "within_tolerance (1 / 2 ^ 52) (round_double y) (Finite y)" if "\<bar>y\<bar> < 2" for y
  proof -
    from that have "\<bar>y\<bar> < 2 powr of_int 1" by simp
    then obtain z where z: "round_double y = Finite z" and "\<bar>z - y\<bar> \<le> 2 powr of_int (1 - 54)"
      by (rule round_double_error) simp_all
    moreover have "(2::real) powr of_int (1 - 54) \<le> 1 / 2 ^ 52" by (simp add: powr_neg_numeral)
    ultimately have "\<bar>z - y\<bar> \<le> 1 / 2 ^ 52" by linarith
    with z show ?thesis by simp
  qed
  have "within_tolerance (1 / 2 ^ 52) (asin_double (Finite x)) (Finite (arcsin x))"
    if "\<bar>x\<bar> \<le> 1" for x
  proof -
    from that have "- 1 \<le> x" "x \<le> 1" by linarith+
    from arcsin_bounded [OF this] have "\<bar>arcsin x\<bar> \<le> pi / 2" by linarith
    with pi_half_less_two have "\<bar>arcsin x\<bar> < 2" by linarith
    from err [OF this] that show ?thesis by simp
  qed
  moreover have "within_tolerance (1 / 2 ^ 52) (sin_double (Finite x)) (Finite (sin x))" for x
  proof -
    have "\<bar>sin x\<bar> < 2" using abs_sin_le_one [of x] by linarith
    from err [OF this] show ?thesis by simp
  qed
  ultimately show ?thesis by (simp add: accurate_def correctly_rounded_def)
qed

text \<open>
  Scenario 6 on \<open>double\<close>: with an accurate library the round trip of 7 between the
  bounds 0 and 10 ends within 1e-12 of 7. Each rounding moves a number below 16 by at
  most 1e-15.
\<close>

lemma Sin_round_trip_double_scenario_6:
  assumes "accurate L"
  shows "within_tolerance (1 / 10 ^ 12)
     (Sin_Internal2External_double L
        (Sin_External2Internal_double L (Finite 7) (Finite 0) (Finite 10)) (Finite 0) (Finite 10))
     (Finite 7)"
proof -
  let ?eps = "1 / 1000000000000000 :: real"
  have i14: "round_double 14 = Finite 14" using round_double_of_int [of 14] by simp
  have i10: "round_double 10 = Finite 10" using round_double_of_int [of 10] by simp
  have i5: "round_double 5 = Finite 5" using round_double_of_int [of 5] by simp
  have i1: "round_double 1 = Finite 1" using round_double_of_int [of 1] by simp
  have i0: "round_double 0 = Finite 0" using round_double_of_int [of 0] by simp
  have err: "\<exists>y. round_double x = Finite y \<and> \<bar>y - x\<bar> \<le> ?eps" if "\<bar>x\<bar> < 16" for x
  proof -
    from that have "\<bar>x\<bar> < 2 powr of_int 4" by simp
    then obtain y where "round_double x = Finite y" and "\<bar>y - x\<bar> \<le> 2 powr of_int (4 - 54)"
      by (rule round_double_error) simp_all
    moreover have "2 powr of_int (4 - 54) \<le> ?eps" by (simp add: powr_neg_numeral)
    ultimately show ?thesis by force
  qed
  have lib: "(1 / 2 ^ 52 :: real) \<le> ?eps" by simp
  have "\<bar>7 / 5 :: real\<bar> < 16" by simp
  from err [OF this] obtain A where A: "round_double (7 / 5) = Finite A" "\<bar>A - 7 / 5\<bar> \<le> ?eps"
    by blast
  from A(2) have "\<bar>A\<bar> < 16" by linarith
  from err [OF this] obtain T1 where T1: "round_double A = Finite T1" "\<bar>T1 - A\<bar> \<le> ?eps"
    by blast
  from A(2) T1(2) have "\<bar>T1 - 1\<bar> < 16" by linarith
  from err [OF this] obtain T2 where T2: "round_double (T1 - 1) = Finite T2" "\<bar>T2 - (T1 - 1)\<bar> \<le> ?eps"
    by blast
  from A(2) T1(2) T2(2) have t2: "\<bar>T2 - 4 / 10\<bar> \<le> 3 * ?eps" by linarith
  then have dom: "- 1 \<le> T2" "T2 \<le> 1" "\<bar>T2\<bar> \<le> 1" by linarith+
  from assms dom(3) have "within_tolerance (1 / 2 ^ 52) (std_asin L (Finite T2)) (Finite (arcsin T2))"
    by (simp add: accurate_def)
  then obtain X where X: "std_asin L (Finite T2) = Finite X" "\<bar>X - arcsin T2\<bar> \<le> 1 / 2 ^ 52"
    by (cases "std_asin L (Finite T2)") simp_all
  have e2i: "Sin_External2Internal_double L (Finite 7) (Finite 0) (Finite 10) = Finite X"
    by (simp add: Sin_External2Internal_double_def sub_double_def i14 i10 i0 i1 A T1 T2 X)
  from assms have "within_tolerance (1 / 2 ^ 52) (std_sin L (Finite X)) (Finite (sin X))"
    by (simp add: accurate_def)
  then obtain S where S: "std_sin L (Finite X) = Finite S" "\<bar>S - sin X\<bar> \<le> 1 / 2 ^ 52"
    by (cases "std_sin L (Finite X)") simp_all
  have "\<bar>sin X - sin (arcsin T2)\<bar> \<le> \<bar>X - arcsin T2\<bar>" by (rule sin_lipschitz)
  with X(2) dom have sx: "\<bar>sin X - T2\<bar> \<le> 1 / 2 ^ 52" by simp
  from S(2) sx t2 lib have s: "\<bar>S - 4 / 10\<bar> \<le> 5 * ?eps" by linarith
  then have "\<bar>S + 1\<bar> < 16" by linarith
  from err [OF this] obtain S1 where S1: "round_double (S + 1) = Finite S1" "\<bar>S1 - (S + 1)\<bar> \<le> ?eps"
    by blast
  from s S1(2) have s1: "\<bar>S1 - 14 / 10\<bar> \<le> 6 * ?eps" by linarith
  then have "\<bar>5 * S1\<bar> < 16" by linarith
  from err [OF this] obtain P where P: "round_double (5 * S1) = Finite P" "\<bar>P - 5 * S1\<bar> \<le> ?eps"
    by blast
  from s1 P(2) have p: "\<bar>P - 7\<bar> \<le> 31 * ?eps" by linarith
  then have "\<bar>P\<bar> < 16" by linarith
  from err [OF this] obtain R where R: "round_double P = Finite R" "\<bar>R - P\<bar> \<le> ?eps"
    by blast
  have i2e: "Sin_Internal2External_double L (Finite X) (Finite 0) (Finite 10) = Finite R"
    by (simp add: Sin_Internal2External_double_def sub_double_def i10 i5 S S1 P R)
  from p R(2) have "\<bar>R - 7\<bar> \<le> 32 * ?eps" by linarith
  also have "32 * ?eps \<le> 1 / 10 ^ 12" by simp
  finally show ?thesis by (simp add: e2i i2e)
qed

text \<open>
  The operations of \<open>External2Internal\<close> one by one, for the bounds 0.2 and 8 and the value
  that follows 0.2: the argument of the arc sine comes out below -1.
\<close>

lemma arc_sine_argument_trace:
  "sub_double (Finite 8) (Finite (3602879701896397 / 2 ^ 54)) = Finite (8782019273372467 / 2 ^ 50)"
  "mul_double (Finite 2) (Finite (7205759403792795 / 2 ^ 55)) = Finite (7205759403792795 / 2 ^ 54)"
  "div_double (Finite (7205759403792795 / 2 ^ 54)) (Finite (8782019273372467 / 2 ^ 50))
     = Finite (7390522465428508 / 2 ^ 57)"
  "div_double (Finite (3602879701896397 / 2 ^ 54)) (Finite (8782019273372467 / 2 ^ 50))
     = Finite (7390522465428507 / 2 ^ 58)"
  "div_double (Finite 8) (Finite (8782019273372467 / 2 ^ 50)) = Finite (4619076540892817 / 2 ^ 52)"
  "sub_double (Finite (7390522465428508 / 2 ^ 57)) (Finite (7390522465428507 / 2 ^ 58))
     = Finite (7390522465428509 / 2 ^ 58)"
  "sub_double (Finite (7390522465428509 / 2 ^ 58)) (Finite (4619076540892817 / 2 ^ 52))
     = Finite (- (4503599627370497 / 2 ^ 52))"
proof -
  show "sub_double (Finite 8) (Finite (3602879701896397 / 2 ^ 54)) = Finite (8782019273372467 / 2 ^ 50)"
    using round_double_near [of 2 "8 - 3602879701896397 / 2 ^ 54" 8782019273372467]
    by (simp add: sub_double_def powr_neg_numeral)
  show "mul_double (Finite 2) (Finite (7205759403792795 / 2 ^ 55)) = Finite (7205759403792795 / 2 ^ 54)"
    using round_double_near [of "- 2" "2 * (7205759403792795 / 2 ^ 55)" 7205759403792795]
    by (simp add: powr_neg_numeral)
  show "div_double (Finite (7205759403792795 / 2 ^ 54)) (Finite (8782019273372467 / 2 ^ 50))
     = Finite (7390522465428508 / 2 ^ 57)"
    using round_double_near [of "- 5" "(7205759403792795 / 2 ^ 54) / (8782019273372467 / 2 ^ 50)"
        7390522465428508]
    by (simp add: powr_neg_numeral)
  show "div_double (Finite (3602879701896397 / 2 ^ 54)) (Finite (8782019273372467 / 2 ^ 50))
     = Finite (7390522465428507 / 2 ^ 58)"
    using round_double_near [of "- 6" "(3602879701896397 / 2 ^ 54) / (8782019273372467 / 2 ^ 50)"
        7390522465428507]
    by (simp add: powr_neg_numeral)
  show "div_double (Finite 8) (Finite (8782019273372467 / 2 ^ 50)) = Finite (4619076540892817 / 2 ^ 52)"
    using round_double_near [of 0 "8 / (8782019273372467 / 2 ^ 50)" 4619076540892817]
    by (simp add: powr_neg_numeral)
  show "sub_double (Finite (7390522465428508 / 2 ^ 57)) (Finite (7390522465428507 / 2 ^ 58))
     = Finite (7390522465428509 / 2 ^ 58)"
    using round_double_near [of "- 6" "7390522465428508 / 2 ^ 57 - 7390522465428507 / 2 ^ 58"
        7390522465428509]
    by (simp add: sub_double_def powr_neg_numeral)
  show "sub_double (Finite (7390522465428509 / 2 ^ 58)) (Finite (4619076540892817 / 2 ^ 52))
     = Finite (- (4503599627370497 / 2 ^ 52))"
    using round_double_near [of 0 "7390522465428509 / 2 ^ 58 - 4619076540892817 / 2 ^ 52"
        "- 4503599627370497"]
    by (simp add: sub_double_def powr_neg_numeral)
qed

text \<open>
  C8, as stated, fails on \<open>double\<close>: for the bounds 0.2 and 8 and the value that follows
  0.2, which lies strictly between them, the argument of the arc sine is computed as
  -1.0000000000000002, so \<open>External2Internal\<close> returns a NaN and the round trip ends in a
  NaN, which is within no tolerance of the value.
\<close>

theorem Sin_round_trip_double_counterexample:
  "less_double (Finite double_0_2) (Finite double_0_2_next)
   \<and> less_double (Finite double_0_2_next) (Finite 8)
   \<and> Sin_External2Internal_double correctly_rounded (Finite double_0_2_next) (Finite double_0_2)
        (Finite 8) = NaN
   \<and> Sin_Internal2External_double correctly_rounded
        (Sin_External2Internal_double correctly_rounded (Finite double_0_2_next) (Finite double_0_2)
           (Finite 8))
        (Finite double_0_2) (Finite 8) = NaN
   \<and> \<not> within_tolerance (1 / 10 ^ 12)
        (Sin_Internal2External_double correctly_rounded
           (Sin_External2Internal_double correctly_rounded (Finite double_0_2_next)
              (Finite double_0_2) (Finite 8))
           (Finite double_0_2) (Finite 8))
        (Finite double_0_2_next)"
proof -
  have e: "Sin_External2Internal_double correctly_rounded (Finite double_0_2_next)
        (Finite double_0_2) (Finite 8) = NaN"
    unfolding Sin_External2Internal_double_def double_0_2_def double_0_2_next_def
    by (simp only: arc_sine_argument_trace) (simp add: correctly_rounded_def)
  show ?thesis
    unfolding e
    by (simp add: Sin_Internal2External_double_def correctly_rounded_def double_0_2_def
        double_0_2_next_def)
qed

text \<open>
  C8, amended. For every value strictly between the bounds the round trip through the
  sine transformation gives the value again, exactly, in exact arithmetic over the reals.
  On \<open>double\<close>, with an accurate library, the round trip of scenario 6 (bounds 0 and 10,
  value 7) ends within 1e-12 of 7; nothing is said of other values.
\<close>

theorem Sin_round_trip:
  "(min' < val \<and> val < max' \<longrightarrow>
      Sin_Internal2External_exact (Sin_External2Internal_exact val min' max') min' max' = val)
   \<and> (accurate L \<longrightarrow>
      within_tolerance (1 / 10 ^ 12)
        (Sin_Internal2External_double L
           (Sin_External2Internal_double L (Finite 7) (Finite 0) (Finite 10)) (Finite 0) (Finite 10))
        (Finite 7))"
  using Sin_round_trip_exact [of min' val max'] Sin_round_trip_double_scenario_6 [of L]
  by blast

theorem Sin_round_trip_scenario_6:
  "(0::real) < 7 \<and> (7::real) < 10
   \<and> Sin_Internal2External_exact (Sin_External2Internal_exact 7 0 10) 0 10 = 7
   \<and> accurate correctly_rounded
   \<and> within_tolerance (1 / 10 ^ 12)
        (Sin_Internal2External_double correctly_rounded
           (Sin_External2Internal_double correctly_rounded (Finite 7) (Finite 0) (Finite 10))
           (Finite 0) (Finite 10))
        (Finite 7)"
  using Sin_round_trip [of 0 7 10 correctly_rounded] correctly_rounded_accurate by simp

text \<open>
  C9. At \<open>val = 7\<close> with bounds 0 and 10 the function \<open>Internal2External\<close> of the tanh
  transformation has derivative 5/21, while \<open>DerivativeInternal2External\<close> returns 5/9:
  the returned number is not the derivative there.
\<close>

theorem Tanh_derivative_mismatch:
  "((\<lambda>val. Tanh_Internal2External val 0 10) has_real_derivative 5 / 21) (at 7)
   \<and> Tanh_DerivativeInternal2External 7 0 10 = 5 / 9
   \<and> \<not> ((\<lambda>val. Tanh_Internal2External val 0 10) has_real_derivative
          Tanh_DerivativeInternal2External 7 0 10) (at 7)"
proof -
  have inner: "((\<lambda>val::real. 2 * (val - 0) / (10 - 0) - 1) has_real_derivative 1 / 5) (at 7)"
    by (auto intro!: derivative_eq_intros)
  have outer: "(artanh has_real_derivative (1 / (1 - (2 / 5) ^ 2))) (at (2 / 5 :: real))"
    by (rule artanh_real_has_field_derivative) simp
  have pt: "2 * ((7::real) - 0) / (10 - 0) - 1 = 2 / 5" by simp
  have "(artanh \<circ> (\<lambda>val::real. 2 * (val - 0) / (10 - 0) - 1) has_real_derivative
          (1 / (1 - (2 / 5) ^ 2)) * (1 / 5)) (at 7)"
    by (rule DERIV_chain) (use inner outer in \<open>simp_all add: pt\<close>)
  then have "((\<lambda>val::real. artanh (2 * (val - 0) / (10 - 0) - 1)) has_real_derivative
          (1 / (1 - (2 / 5) ^ 2)) * (1 / 5)) (at 7)"
    by (simp add: o_def)
  moreover have "(1 / (1 - (2 / 5) ^ 2)) * (1 / 5) = (5 / 21 :: real)"
    by (simp add: power2_eq_square)
  ultimately have "((\<lambda>val::real. artanh (2 * (val - 0) / (10 - 0) - 1)) has_real_derivative
          5 / 21) (at 7)"
    by (simp only:)
  then have d: "((\<lambda>val. Tanh_Internal2External val 0 10) has_real_derivative 5 / 21) (at 7)"
    by (simp add: Tanh_Internal2External_def)
  have c: "Tanh_DerivativeInternal2External 7 0 10 = 5 / 9"
    by (simp add: Tanh_DerivativeInternal2External_def power2_eq_square)
  have n: "\<not> ((\<lambda>val. Tanh_Internal2External val 0 10) has_real_derivative
          Tanh_DerivativeInternal2External 7 0 10) (at 7)"
  proof
    assume "((\<lambda>val. Tanh_Internal2External val 0 10) has_real_derivative
          Tanh_DerivativeInternal2External 7 0 10) (at 7)"
    from DERIV_unique [OF this d] show False unfolding c by simp
  qed
  from d c n show ?thesis by (intro conjI)
qed

section \<open>Expression nodes: results\<close>

text \<open>
  C4. For an inner expression \<open>g\<close>, the three \<open>EvaluateDerivative\<close> overloads of \<open>Sinh\<close> and
  of \<open>Cosh\<close> are the chain-rule expansion of \<open>f(g)\<close> with \<open>(f', f'', f''') = (cosh, sinh, cosh)\<close>
  for \<open>Sinh\<close> and \<open>(sinh, cosh, sinh)\<close> for \<open>Cosh\<close>, taken at the current value of \<open>g\<close>.
\<close>

theorem Sinh_Cosh_chain_rule:
  "EvaluateDerivative (Sinh g) h a = cosh (GetValue g h) * EvaluateDerivative g h a
   \<and> EvaluateDerivative2 (Sinh g) h a b =
       sinh (GetValue g h) * EvaluateDerivative g h a * EvaluateDerivative g h b
       + cosh (GetValue g h) * EvaluateDerivative2 g h a b
   \<and> EvaluateDerivative3 (Sinh g) h a b c =
       cosh (GetValue g h) * EvaluateDerivative g h a * EvaluateDerivative g h b * EvaluateDerivative g h c
       + sinh (GetValue g h)
           * (EvaluateDerivative2 g h a b * EvaluateDerivative g h c
              + EvaluateDerivative2 g h a c * EvaluateDerivative g h b
              + EvaluateDerivative2 g h b c * EvaluateDerivative g h a)
       + cosh (GetValue g h) * EvaluateDerivative3 g h a b c
   \<and> EvaluateDerivative (Cosh h0 g) h a = sinh (GetValue g h) * EvaluateDerivative g h a
   \<and> EvaluateDerivative2 (Cosh h0 g) h a b =
       cosh (GetValue g h) * EvaluateDerivative g h a * EvaluateDerivative g h b
       + sinh (GetValue g h) * EvaluateDerivative2 g h a b
   \<and> EvaluateDerivative3 (Cosh h0 g) h a b c =
       sinh (GetValue g h) * EvaluateDerivative g h a * EvaluateDerivative g h b * EvaluateDerivative g h c
       + cosh (GetValue g h)
           * (EvaluateDerivative2 g h a b * EvaluateDerivative g h c
              + EvaluateDerivative2 g h a c * EvaluateDerivative g h b
              + EvaluateDerivative2 g h b c * EvaluateDerivative g h a)
       + sinh (GetValue g h) * EvaluateDerivative3 g h a b c"
  by (simp add: Sinh_def Cosh_def Cosh_members_def algebra_simps)

text \<open>The expansion at the product of the leaves 5 and 6 (values 2 and 3), mixed in both.\<close>

theorem Sinh_Cosh_chain_rule_witness:
  "EvaluateDerivative2 (Sinh (Multiply (Variable_node (var_at 0)) (Variable_node (var_at 1)))) heap0 5 6
     = sinh 6 * 3 * 2 + cosh 6 * 1
   \<and> EvaluateDerivative3 (Cosh heap0 (Multiply (Variable_node (var_at 0)) (Variable_node (var_at 1))))
        heap0 5 6 5
     = sinh 6 * 3 * 2 * 3 + cosh 6 * (1 * 3 + 0 * 2 + 1 * 3) + sinh 6 * 0"
  using Sinh_Cosh_chain_rule
    [of "Multiply (Variable_node (var_at 0)) (Variable_node (var_at 1))" heap0 5 6 5 heap0]
  by (simp add: Multiply_def Variable_node_def var_at_def heap0_def info_at_def)




section \<open>Bounds: results\<close>

lemma round_double_small:
  "round_double 0 = Finite 0" "round_double 3 = Finite 3" "round_double 5 = Finite 5"
  "round_double 6 = Finite 6" "round_double 7 = Finite 7" "round_double 10 = Finite 10"
  "round_double 14 = Finite 14"
  using round_double_of_int [of 0] round_double_of_int [of 3] round_double_of_int [of 5]
    round_double_of_int [of 6] round_double_of_int [of 7] round_double_of_int [of 10]
    round_double_of_int [of 14]
  by simp_all

lemma sum_overflows:
  "round_double (half_of_largest + three_quarters_of_largest) = PlusInfinity"
  "half_of_largest < three_quarters_of_largest"
  "0 < half_of_largest"
  "0 < three_quarters_of_largest"
  by (simp_all add: round_double_def overflow_threshold_def half_of_largest_def
      three_quarters_of_largest_def)

text \<open>The two values are binary64 values.\<close>

lemma largest_representable:
  "round_double half_of_largest = Finite half_of_largest"
  "round_double three_quarters_of_largest = Finite three_quarters_of_largest"
proof -
  have p: "(2::real) powr of_int 1023 = 2 ^ 1023" "(2::real) powr of_int (1023 + 1) = 2 ^ 1024"
    "(2::real) powr of_int (1023 - 52) = 2 ^ 971"
    by simp_all
  have "round_to_grid half_of_largest = of_int (2 ^ 52) * 2 powr of_int (1023 - 52)"
    by (rule round_to_grid_near) (simp_all only: p, simp_all add: half_of_largest_def)
  also have "\<dots> = half_of_largest" by (simp only: p) (simp add: half_of_largest_def)
  finally have h: "round_to_grid half_of_largest = half_of_largest" .
  have "round_to_grid three_quarters_of_largest = of_int (3 * 2 ^ 51) * 2 powr of_int (1023 - 52)"
    by (rule round_to_grid_near) (simp_all only: p, simp_all add: three_quarters_of_largest_def)
  also have "\<dots> = three_quarters_of_largest"
    by (simp only: p) (simp add: three_quarters_of_largest_def)
  finally have t: "round_to_grid three_quarters_of_largest = three_quarters_of_largest" .
  have "\<not> overflow_threshold \<le> \<bar>half_of_largest\<bar>"
    "\<not> overflow_threshold \<le> \<bar>three_quarters_of_largest\<bar>"
    by (simp_all add: overflow_threshold_def half_of_largest_def three_quarters_of_largest_def)
  then show "round_double half_of_largest = Finite half_of_largest"
    "round_double three_quarters_of_largest = Finite three_quarters_of_largest"
    by (simp_all only: round_double_def h t if_False)
qed

text \<open>
  C10, as stated, fails in two ways. With the bounds 10 and 0 and the current value 3,
  which lies outside the bounds, the value becomes 10 and not the midpoint 5. With the
  ordered bounds \<open>2 ^ 1023\<close> and \<open>3 * 2 ^ 1022\<close>, both binary64 values, and the current
  value 0, the sum of the bounds overflows, the computed midpoint is an infinity and the
  value becomes the upper bound.
\<close>

theorem SetBounds_midpoint_counterexample:
  "GetValue_var var_double (heap_double_of (Finite 3)) = Finite 3
   \<and> div_double (add_double (Finite 10) (Finite 0)) (Finite 2) = Finite 5
   \<and> GetValue_var (fst (SetBounds_double (Finite 10) (Finite 0) (var_double, heap_double_of (Finite 3)))) (snd (SetBounds_double (Finite 10) (Finite 0) (var_double, heap_double_of (Finite 3)))) = Finite 10
   \<and> GetValue_var (fst (SetBounds_double (Finite 10) (Finite 0) (var_double, heap_double_of (Finite 3)))) (snd (SetBounds_double (Finite 10) (Finite 0) (var_double, heap_double_of (Finite 3)))) \<noteq> Finite ((10 + 0) / 2)
   \<and> round_double half_of_largest = Finite half_of_largest
   \<and> round_double three_quarters_of_largest = Finite three_quarters_of_largest
   \<and> less_double (Finite half_of_largest) (Finite three_quarters_of_largest)
   \<and> div_double (add_double (Finite half_of_largest) (Finite three_quarters_of_largest)) (Finite 2) = PlusInfinity
   \<and> GetValue_var (fst (SetBounds_double (Finite half_of_largest) (Finite three_quarters_of_largest) (var_double, heap_double_of (Finite 0)))) (snd (SetBounds_double (Finite half_of_largest) (Finite three_quarters_of_largest) (var_double, heap_double_of (Finite 0)))) = Finite three_quarters_of_largest
   \<and> GetValue_var (fst (SetBounds_double (Finite half_of_largest) (Finite three_quarters_of_largest) (var_double, heap_double_of (Finite 0)))) (snd (SetBounds_double (Finite half_of_largest) (Finite three_quarters_of_largest) (var_double, heap_double_of (Finite 0)))) \<noteq> Finite ((half_of_largest + three_quarters_of_largest) / 2)"
proof -
  have ne: "three_quarters_of_largest \<noteq> (half_of_largest + three_quarters_of_largest) / 2"
    by (simp add: half_of_largest_def three_quarters_of_largest_def)
  show ?thesis
    using ne
    by (simp add: SetBounds_double_def SetValue_double_def GetValue_var_def var_double_def
        heap_double_of_def Let_def round_double_small sum_overflows infinity_of_def
        largest_representable)
qed

text \<open>
  C10, amended. \<open>SetBounds\<close> marks the variable bounded and stores the two bounds. When the
  current value compares below the lower bound, above the upper bound or equal to zero,
  the computed midpoint of the bounds goes through \<open>SetValue\<close>, which stores the lower
  bound when the midpoint compares below it, else the upper bound when the midpoint
  compares above it, else the midpoint itself (and the lower bound plus half the distance
  of the bounds when the midpoint is a NaN). In every other case, that of a NaN value
  included, the heap is left as it was. When the bounds are ordered binary64 values \<open>a\<close>
  and \<open>b\<close> whose sum does not overflow, the computed midpoint is a finite value between
  them, and it is the value stored.
\<close>

theorem SetBounds_effect:
  "bounded_m (fst (SetBounds_double lo hi (v, h)))
   \<and> min_boundary_m (fst (SetBounds_double lo hi (v, h))) = lo
   \<and> max_boundary_m (fst (SetBounds_double lo hi (v, h))) = hi
   \<and> info (fst (SetBounds_double lo hi (v, h))) = info v
   \<and> snd (SetBounds_double lo hi (v, h)) =
       (if less_double (GetValue_var v h) lo \<or> less_double hi (GetValue_var v h)
           \<or> eq_double (GetValue_var v h) (Finite 0)
        then h(info v := (h (info v))\<lparr>vvalue :=
               (if \<not> eq_double (div_double (add_double lo hi) (Finite 2))
                               (div_double (add_double lo hi) (Finite 2))
                then add_double lo (div_double (sub_double hi lo) (Finite 2))
                else if less_double (div_double (add_double lo hi) (Finite 2)) lo then lo
                else if less_double hi (div_double (add_double lo hi) (Finite 2)) then hi
                else div_double (add_double lo hi) (Finite 2))\<rparr>)
        else h)
   \<and> (round_double a = Finite a \<and> round_double b = Finite b \<and> a \<le> b
        \<and> \<bar>a + b\<bar> < overflow_threshold
        \<and> (less_double (GetValue_var v h) (Finite a) \<or> less_double (Finite b) (GetValue_var v h)
            \<or> eq_double (GetValue_var v h) (Finite 0))
      \<longrightarrow> (\<exists>m. a \<le> m \<and> m \<le> b
            \<and> div_double (add_double (Finite a) (Finite b)) (Finite 2) = Finite m
            \<and> GetValue_var (fst (SetBounds_double (Finite a) (Finite b) (v, h)))
                 (snd (SetBounds_double (Finite a) (Finite b) (v, h))) = Finite m))"
proof -
  have general: "bounded_m (fst (SetBounds_double lo hi (v, h)))
   \<and> min_boundary_m (fst (SetBounds_double lo hi (v, h))) = lo
   \<and> max_boundary_m (fst (SetBounds_double lo hi (v, h))) = hi
   \<and> info (fst (SetBounds_double lo hi (v, h))) = info v
   \<and> snd (SetBounds_double lo hi (v, h)) =
       (if less_double (GetValue_var v h) lo \<or> less_double hi (GetValue_var v h)
           \<or> eq_double (GetValue_var v h) (Finite 0)
        then h(info v := (h (info v))\<lparr>vvalue :=
               (if \<not> eq_double (div_double (add_double lo hi) (Finite 2))
                               (div_double (add_double lo hi) (Finite 2))
                then add_double lo (div_double (sub_double hi lo) (Finite 2))
                else if less_double (div_double (add_double lo hi) (Finite 2)) lo then lo
                else if less_double hi (div_double (add_double lo hi) (Finite 2)) then hi
                else div_double (add_double lo hi) (Finite 2))\<rparr>)
        else h)"
    by (simp add: SetBounds_double_def SetValue_double_def GetValue_var_def Let_def)
  have ordered: "\<exists>m. a \<le> m \<and> m \<le> b
            \<and> div_double (add_double (Finite a) (Finite b)) (Finite 2) = Finite m
            \<and> GetValue_var (fst (SetBounds_double (Finite a) (Finite b) (v, h)))
                 (snd (SetBounds_double (Finite a) (Finite b) (v, h))) = Finite m"
    if a: "round_double a = Finite a" and b: "round_double b = Finite b" and le: "a \<le> b"
      and sum: "\<bar>a + b\<bar> < overflow_threshold"
      and trigger: "less_double (GetValue_var v h) (Finite a) \<or> less_double (Finite b) (GetValue_var v h)
            \<or> eq_double (GetValue_var v h) (Finite 0)"
  proof -
    from midpoint_within [OF a b le sum] obtain m
      where m: "div_double (add_double (Finite a) (Finite b)) (Finite 2) = Finite m"
        and am: "a \<le> m" and mb: "m \<le> b" by blast
    have "GetValue_var (fst (SetBounds_double (Finite a) (Finite b) (v, h)))
                 (snd (SetBounds_double (Finite a) (Finite b) (v, h))) = Finite m"
      using trigger am mb
      by (simp add: SetBounds_double_def SetValue_double_def GetValue_var_def Let_def m
          del: add_double.simps div_double.simps)
    with m am mb show ?thesis by blast
  qed
  from general ordered show ?thesis by blast
qed

text \<open>
  Zero inside the bounds -4 and 10 is replaced by the midpoint 3, the value 2 inside the
  bounds 0 and 10 is kept, the value 2 below the bounds 4 and 10 is replaced by the
  midpoint 7, which lies between the bounds, and a NaN is kept.
\<close>

theorem SetBounds_effect_witness:
  "GetValue_var (fst (SetBounds_double (Finite (- 4)) (Finite 10) (var_double, heap_double_of (Finite 0))))
     (snd (SetBounds_double (Finite (- 4)) (Finite 10) (var_double, heap_double_of (Finite 0))))
     = Finite 3
   \<and> GetValue_var (fst (SetBounds_double (Finite 0) (Finite 10) (var_double, heap_double_of (Finite 2))))
     (snd (SetBounds_double (Finite 0) (Finite 10) (var_double, heap_double_of (Finite 2))))
     = Finite 2
   \<and> GetValue_var (fst (SetBounds_double (Finite 4) (Finite 10) (var_double, heap_double_of (Finite 2))))
     (snd (SetBounds_double (Finite 4) (Finite 10) (var_double, heap_double_of (Finite 2))))
     = Finite 7
   \<and> GetValue_var (fst (SetBounds_double (Finite 0) (Finite 10) (var_double, heap_double_of NaN)))
     (snd (SetBounds_double (Finite 0) (Finite 10) (var_double, heap_double_of NaN)))
     = NaN
   \<and> bounded_m (fst (SetBounds_double (Finite 4) (Finite 10) (var_double, heap_double_of (Finite 2))))
   \<and> round_double 4 = Finite 4 \<and> round_double 10 = Finite 10 \<and> (4::real) \<le> 10
   \<and> \<bar>4 + 10 :: real\<bar> < overflow_threshold
   \<and> less_double (GetValue_var var_double (heap_double_of (Finite 2))) (Finite 4)
   \<and> (\<exists>m. (4::real) \<le> m \<and> m \<le> 10
            \<and> div_double (add_double (Finite 4) (Finite 10)) (Finite 2) = Finite m
            \<and> GetValue_var (fst (SetBounds_double (Finite 4) (Finite 10) (var_double, heap_double_of (Finite 2))))
                 (snd (SetBounds_double (Finite 4) (Finite 10) (var_double, heap_double_of (Finite 2)))) = Finite m)"
proof -
  have hyps: "round_double 4 = Finite 4" "round_double 10 = Finite 10"
    "\<bar>4 + 10 :: real\<bar> < overflow_threshold"
    "less_double (GetValue_var var_double (heap_double_of (Finite 2))) (Finite 4)"
    using round_double_of_int [of 4] round_double_of_int [of 10]
    by (simp_all add: overflow_threshold_def GetValue_var_def heap_double_of_def)
  show ?thesis
    using SetBounds_effect [where lo = "Finite (- 4)" and hi = "Finite 10" and v = var_double
        and h = "heap_double_of (Finite 0)" and a = 4 and b = 10]
      SetBounds_effect [where lo = "Finite 0" and hi = "Finite 10" and v = var_double
        and h = "heap_double_of (Finite 2)" and a = 4 and b = 10]
      SetBounds_effect [where lo = "Finite 4" and hi = "Finite 10" and v = var_double
        and h = "heap_double_of (Finite 2)" and a = 4 and b = 10]
      SetBounds_effect [where lo = "Finite 0" and hi = "Finite 10" and v = var_double
        and h = "heap_double_of NaN" and a = 4 and b = 10]
      hyps
    by (simp add: GetValue_var_def var_double_def heap_double_of_def round_double_small)
qed

section \<open>The record-and-assign procedure: what the loops leave alone\<close>

lemma first_order_loop_tape:
  "recording (fst (first_order_loop expr h its i (gs, entry))) = recording gs
   \<and> derivative_trace_level (fst (first_order_loop expr h its i (gs, entry))) = derivative_trace_level gs
   \<and> gradient_stack (fst (first_order_loop expr h its i (gs, entry))) = gradient_stack gs
   \<and> stack_current (fst (first_order_loop expr h its i (gs, entry))) = stack_current gs"
  by (induction its arbitrary: i gs entry) (simp_all add: Let_def)

lemma first_order_loop_entry:
  "w (snd (first_order_loop expr h its i (gs, entry))) = w entry
   \<and> ids (snd (first_order_loop expr h its i (gs, entry))) = ids entry
   \<and> second_mixed (snd (first_order_loop expr h its i (gs, entry))) = second_mixed entry"
  by (induction its arbitrary: i gs entry) (simp_all add: Let_def)

lemma gradient_loop_entry:
  "w (gradient_loop expr h its i entry) = w entry
   \<and> ids (gradient_loop expr h its i entry) = ids entry
   \<and> second_mixed (gradient_loop expr h its i entry) = second_mixed entry"
  by (induction its arbitrary: i entry) (simp_all add: Let_def)

lemma second_mixed_inner_entry:
  "w (second_mixed_inner expr h it i jts j entry) = w entry
   \<and> ids (second_mixed_inner expr h it i jts j entry) = ids entry
   \<and> first (second_mixed_inner expr h it i jts j entry) = first entry"
  by (induction jts arbitrary: j entry) (simp_all add: Let_def)

lemma second_mixed_outer_entry:
  "w (snd (second_mixed_outer expr wa index all_ids its i (h, entry))) = w entry
   \<and> ids (snd (second_mixed_outer expr wa index all_ids its i (h, entry))) = ids entry"
  by (induction its arbitrary: i h entry) (simp_all add: Let_def second_mixed_inner_entry)

lemma third_mixed_k_entry:
  "w (third_mixed_k expr h it jt i j kts k entry) = w entry
   \<and> ids (third_mixed_k expr h it jt i j kts k entry) = ids entry
   \<and> first (third_mixed_k expr h it jt i j kts k entry) = first entry"
  by (induction kts arbitrary: k entry) (simp_all add: Let_def)

lemma third_mixed_j_entry:
  "w (third_mixed_j expr h it i all_ids jts j entry) = w entry
   \<and> ids (third_mixed_j expr h it i all_ids jts j entry) = ids entry
   \<and> first (third_mixed_j expr h it i all_ids jts j entry) = first entry"
  by (induction jts arbitrary: j entry) (simp_all add: Let_def third_mixed_k_entry)

lemma third_mixed_outer_entry:
  "w (snd (third_mixed_outer expr wa index all_ids its i (h, entry))) = w entry
   \<and> ids (snd (third_mixed_outer expr wa index all_ids its i (h, entry))) = ids entry"
  by (induction its arbitrary: i h entry) (simp_all add: Let_def third_mixed_j_entry)

lemma hessian_inner_entry:
  "w (hessian_inner expr h it i jts j entry) = w entry
   \<and> ids (hessian_inner expr h it i jts j entry) = ids entry
   \<and> first (hessian_inner expr h it i jts j entry) = first entry
   \<and> length (second_mixed (hessian_inner expr h it i jts j entry)) = length (second_mixed entry)"
  by (induction jts arbitrary: j entry) (simp_all add: Let_def)

lemma hessian_outer_entry:
  "w (snd (hessian_outer expr all_ids its i (h, entry))) = w entry
   \<and> ids (snd (hessian_outer expr all_ids its i (h, entry))) = ids entry
   \<and> length (first (snd (hessian_outer expr all_ids its i (h, entry)))) = length (first entry)
   \<and> length (second_mixed (snd (hessian_outer expr all_ids its i (h, entry))))
       = length (second_mixed entry)"
  by (induction its arbitrary: i h entry) (simp_all add: Let_def hessian_inner_entry)

text \<open>
  Whatever the trace level, the switch leaves the cursor and the stack of the tape as they
  are, and when it returns, the entry points to the assigned variable and keeps its leaves.
\<close>

lemma Assign_switch_tape:
  assumes "Assign_switch this expr index (gs, h, entry) = Inr r"
  shows "stack_current (fst r) = stack_current gs"
    and "gradient_stack (fst r) = gradient_stack gs"
    and "recording (fst r) = recording gs"
    and "derivative_trace_level (fst r) = derivative_trace_level gs"
    and "w (snd (snd r)) = Some (info this)"
    and "ids (snd (snd r)) = ids entry"
  using assms
  by (auto simp add: Assign_switch_def Let_def first_order_loop_tape first_order_loop_entry
      gradient_loop_entry second_mixed_outer_entry third_mixed_outer_entry hessian_outer_entry
      split: DerivativeTraceLevel.splits)

lemma NextIndex_facts:
  "fst (NextIndex gs) = stack_current gs"
  "stack_current (snd (NextIndex gs)) = stack_current gs + 1"
  "fst (NextIndex gs) < length (gradient_stack (snd (NextIndex gs)))"
  "recording (snd (NextIndex gs)) = recording gs"
  "derivative_trace_level (snd (NextIndex gs)) = derivative_trace_level gs"
  "min_id (snd (NextIndex gs)) = min_id gs"
  "max_id (snd (NextIndex gs)) = max_id gs"
  "k < length (gradient_stack gs) \<Longrightarrow> gradient_stack (snd (NextIndex gs)) ! k = gradient_stack gs ! k"
  by (auto simp add: NextIndex_def nth_append)

lemma first_order_loop_range:
  "min_id (fst (first_order_loop expr h its i (gs, entry))) \<le> min_id gs
   \<and> max_id gs \<le> max_id (fst (first_order_loop expr h its i (gs, entry)))
   \<and> (\<forall>a \<in> set its. min_id (fst (first_order_loop expr h its i (gs, entry))) \<le> info_id (h a)
                    \<and> info_id (h a) \<le> max_id (fst (first_order_loop expr h its i (gs, entry))))"
proof (induction its arbitrary: i gs entry)
  case Nil
  show ?case by simp
next
  case (Cons it its)
  let ?gs1 = "if info_id (h it) > max_id gs then gs\<lparr>max_id := info_id (h it)\<rparr> else gs"
  let ?gs2 = "if info_id (h it) < min_id ?gs1 then ?gs1\<lparr>min_id := info_id (h it)\<rparr> else ?gs1"
  let ?e = "entry\<lparr>first := (first entry)[i := EvaluateDerivative expr h (info_id (h it))]\<rparr>"
  let ?r = "first_order_loop expr h its (i + 1) (?gs2, ?e)"
  have step: "first_order_loop expr h (it # its) i (gs, entry) = ?r"
    by (simp add: Let_def)
  have lo: "min_id ?gs2 \<le> min_id gs" "min_id ?gs2 \<le> info_id (h it)" by auto
  have hi: "max_id gs \<le> max_id ?gs2" "info_id (h it) \<le> max_id ?gs2" by auto
  from Cons.IH [of "i + 1" ?gs2 ?e]
  have ih: "min_id (fst ?r) \<le> min_id ?gs2" "max_id ?gs2 \<le> max_id (fst ?r)"
    "\<forall>a \<in> set its. min_id (fst ?r) \<le> info_id (h a) \<and> info_id (h a) \<le> max_id (fst ?r)"
    by blast+
  show ?case
    unfolding step using lo hi ih by (auto intro: order_trans)
qed

lemma SetValue_frame:
  "info_id (SetValue v x h a) = info_id (h a)"
  "is_dependent (SetValue v x h a) = is_dependent (h a)"
  by (simp_all add: SetValue_def)

section \<open>The record-and-assign procedure: results\<close>

text \<open>
  C1. On a recording tape, assigning a scalar leaves the tape as it is (no record is
  appended), and assigning an expression or another variable advances the cursor by
  exactly one: the record is the slot that \<open>NextIndex\<close> returned, every other slot of the
  stack is untouched, and the record holds the leaves that the expression pushed; when the
  assignment returns, the record points to the assigned variable. This covers every trace
  level, the state being the one in which the assignment returns or the program exits.
\<close>

theorem assignment_tape_growth:
  assumes "recording (fst s)"
  shows "(exit_of (operator_assign_REAL_T this c s) = None
          \<and> fst (final_state (operator_assign_REAL_T this c s)) = fst s)
         \<and> (stack_current (fst (final_state (operator_assign_Expression this expr s)))
               = stack_current (fst s) + 1
             \<and> fst (NextIndex (fst s)) = stack_current (fst s)
             \<and> fst (NextIndex (fst s))
                 < length (gradient_stack (fst (final_state (operator_assign_Expression this expr s))))
             \<and> (\<forall>k < length (gradient_stack (fst s)). k \<noteq> fst (NextIndex (fst s)) \<longrightarrow>
                   gradient_stack (fst (final_state (operator_assign_Expression this expr s))) ! k
                     = gradient_stack (fst s) ! k)
             \<and> ids (gradient_stack (fst (final_state (operator_assign_Expression this expr s)))
                      ! fst (NextIndex (fst s)))
                 = PushIds expr (ids (gradient_stack (snd (NextIndex (fst s))) ! fst (NextIndex (fst s))))
             \<and> (exit_of (operator_assign_Expression this expr s) = None \<longrightarrow>
                   w (gradient_stack (fst (final_state (operator_assign_Expression this expr s)))
                        ! fst (NextIndex (fst s)))
                     = Some (info this)))
         \<and> stack_current (fst (final_state (operator_assign_Variable this other s)))
               = stack_current (fst s) + 1"
proof -
  have scalar: "exit_of (operator_assign_REAL_T this c s) = None
         \<and> fst (final_state (operator_assign_REAL_T this c s)) = fst s"
    by (simp add: operator_assign_REAL_T_def exit_of_def final_state_def)
  have grow: "stack_current (fst (final_state (Assign_p this e s))) = stack_current (fst s) + 1" for e
  proof (cases "Assign_switch this e (fst (NextIndex (fst s)))
                  (snd (NextIndex (fst s)), snd s,
                   (gradient_stack (snd (NextIndex (fst s))) ! fst (NextIndex (fst s)))
                     \<lparr>ids := PushIds e (ids (gradient_stack (snd (NextIndex (fst s))) ! fst (NextIndex (fst s)))),
                      first := resize (length (PushIds e (ids (gradient_stack (snd (NextIndex (fst s))) ! fst (NextIndex (fst s))))))
                                 0 (first (gradient_stack (snd (NextIndex (fst s))) ! fst (NextIndex (fst s))))\<rparr>)")
    case (Inl x)
    with assms show ?thesis
      by (simp add: Assign_p_def Let_def final_state_def NextIndex_facts)
  next
    case (Inr r)
    with assms Assign_switch_tape(1) [OF Inr] show ?thesis
      by (simp add: Assign_p_def Let_def final_state_def NextIndex_facts)
  qed
  have var: "stack_current (fst (final_state (operator_assign_Variable this other s)))
           = stack_current (fst s) + 1"
    by (simp add: operator_assign_Variable_def grow)
  let ?index = "fst (NextIndex (fst s))"
  let ?gs1 = "snd (NextIndex (fst s))"
  let ?slot = "gradient_stack ?gs1 ! ?index"
  let ?entry2 = "?slot\<lparr>ids := PushIds expr (ids ?slot),
                        first := resize (length (PushIds expr (ids ?slot))) 0 (first ?slot)\<rparr>"
  let ?r = "Assign_p this expr s"
  have lt: "?index < length (gradient_stack ?gs1)" by (rule NextIndex_facts)
  have rest: "?index < length (gradient_stack (fst (final_state ?r)))
         \<and> (\<forall>k < length (gradient_stack (fst s)). k \<noteq> ?index \<longrightarrow>
               gradient_stack (fst (final_state ?r)) ! k = gradient_stack (fst s) ! k)
         \<and> ids (gradient_stack (fst (final_state ?r)) ! ?index) = PushIds expr (ids ?slot)
         \<and> (exit_of ?r = None \<longrightarrow> w (gradient_stack (fst (final_state ?r)) ! ?index) = Some (info this))"
  proof (cases "Assign_switch this expr ?index (?gs1, snd s, ?entry2)")
    case (Inl x)
    with assms lt show ?thesis
      by (simp add: Assign_p_def Let_def final_state_def exit_of_def NextIndex_facts(8))
  next
    case (Inr r)
    with assms lt Assign_switch_tape(2,5,6) [OF Inr] show ?thesis
      by (simp add: Assign_p_def Let_def final_state_def exit_of_def NextIndex_facts(8))
  qed
  with grow [of expr] have ex: "stack_current (fst (final_state (operator_assign_Expression this expr s)))
               = stack_current (fst s) + 1
             \<and> fst (NextIndex (fst s)) = stack_current (fst s)
             \<and> fst (NextIndex (fst s))
                 < length (gradient_stack (fst (final_state (operator_assign_Expression this expr s))))
             \<and> (\<forall>k < length (gradient_stack (fst s)). k \<noteq> fst (NextIndex (fst s)) \<longrightarrow>
                   gradient_stack (fst (final_state (operator_assign_Expression this expr s))) ! k
                     = gradient_stack (fst s) ! k)
             \<and> ids (gradient_stack (fst (final_state (operator_assign_Expression this expr s)))
                      ! fst (NextIndex (fst s)))
                 = PushIds expr (ids (gradient_stack (snd (NextIndex (fst s))) ! fst (NextIndex (fst s))))
             \<and> (exit_of (operator_assign_Expression this expr s) = None \<longrightarrow>
                   w (gradient_stack (fst (final_state (operator_assign_Expression this expr s)))
                        ! fst (NextIndex (fst s)))
                     = Some (info this))"
    by (simp add: operator_assign_Expression_def NextIndex_facts(1))
  from scalar ex var show ?thesis by (intro conjI) blast+
qed

text \<open>
  On the fresh recording tape, under \<open>FIRST_ORDER\<close> and under \<open>SECOND_ORDER\<close>: the scalar 4
  leaves the tape empty, the expression \<open>sinh(x)\<close> and the variable \<open>y\<close> make it hold one
  record.
\<close>

theorem assignment_tape_growth_witness:
  "recording (fst (tape0 FIRST_ORDER, heap0))
   \<and> fst (final_state (operator_assign_REAL_T (var_at 2) 4 (tape0 FIRST_ORDER, heap0)))
       = tape0 FIRST_ORDER
   \<and> stack_current (fst (final_state
         (operator_assign_Expression (var_at 2) (Sinh (Variable_node (var_at 0)))
            (tape0 FIRST_ORDER, heap0)))) = 1
   \<and> stack_current (fst (final_state
         (operator_assign_Variable (var_at 2) (var_at 1) (tape0 FIRST_ORDER, heap0)))) = 1
   \<and> stack_current (fst (final_state
         (operator_assign_Expression (var_at 2) (Sinh (Variable_node (var_at 0)))
            (tape0 SECOND_ORDER, heap0)))) = 1"
  using assignment_tape_growth
      [of "(tape0 FIRST_ORDER, heap0)" "var_at 2" 4 "Sinh (Variable_node (var_at 0))" "var_at 1"]
    assignment_tape_growth
      [of "(tape0 SECOND_ORDER, heap0)" "var_at 2" 4 "Sinh (Variable_node (var_at 0))" "var_at 1"]
  by (simp add: tape0_def)

text \<open>
  C3. On a recording tape the assignment ends in an exit of the program exactly at the
  trace levels \<open>SECOND_ORDER\<close>, \<open>THIRD_ORDER\<close> and at a level that is none of the
  enumerators; the diagnostic names the mode in the first two cases, and the call does not
  return. At every other level it returns.
\<close>

theorem unavailable_modes_exit:
  assumes "recording (fst s)"
  shows "exit_of (Assign_p this expr s) =
     (case derivative_trace_level (fst s) of
        SECOND_ORDER \<Rightarrow>
          Some (Exit ([CHR 0x22] @ ''SECOND_ORDER'' @ [CHR 0x22] @ '' not yet available!'' @ [CHR 0x0A]) 0)
      | THIRD_ORDER \<Rightarrow>
          Some (Exit ([CHR 0x22] @ ''THIRD_ORDER'' @ [CHR 0x22] @ '' not yet available!'' @ [CHR 0x0A]) 0)
      | UNKNOWN_TRACE_LEVEL \<Rightarrow> Some (Exit ''Unkown derivative trace level.'' 0)
      | _ \<Rightarrow> None)"
  using assms
  by (simp add: Assign_p_def Assign_switch_def Let_def exit_of_def not_yet_available_def
      NextIndex_facts split: DerivativeTraceLevel.splits)


text \<open>
  Under \<open>SECOND_ORDER\<close>, \<open>THIRD_ORDER\<close> and an unknown level the assignment of \<open>sinh(x)\<close>
  exits with the diagnostic; under \<open>GRADIENT\<close> it returns.
\<close>

theorem unavailable_modes_exit_witness:
  "recording (fst (tape0 SECOND_ORDER, heap0))
   \<and> exit_of (Assign_p (var_at 2) (Sinh (Variable_node (var_at 0))) (tape0 SECOND_ORDER, heap0))
       = Some (Exit ([CHR 0x22] @ ''SECOND_ORDER'' @ [CHR 0x22] @ '' not yet available!'' @ [CHR 0x0A]) 0)
   \<and> exit_of (Assign_p (var_at 2) (Sinh (Variable_node (var_at 0))) (tape0 THIRD_ORDER, heap0))
       = Some (Exit ([CHR 0x22] @ ''THIRD_ORDER'' @ [CHR 0x22] @ '' not yet available!'' @ [CHR 0x0A]) 0)
   \<and> exit_of (Assign_p (var_at 2) (Sinh (Variable_node (var_at 0))) (tape0 UNKNOWN_TRACE_LEVEL, heap0))
       = Some (Exit ''Unkown derivative trace level.'' 0)
   \<and> exit_of (Assign_p (var_at 2) (Sinh (Variable_node (var_at 0))) (tape0 GRADIENT, heap0)) = None"
  using unavailable_modes_exit [of "(tape0 SECOND_ORDER, heap0)" "var_at 2" "Sinh (Variable_node (var_at 0))"]
    unavailable_modes_exit [of "(tape0 THIRD_ORDER, heap0)" "var_at 2" "Sinh (Variable_node (var_at 0))"]
    unavailable_modes_exit [of "(tape0 UNKNOWN_TRACE_LEVEL, heap0)" "var_at 2" "Sinh (Variable_node (var_at 0))"]
    unavailable_modes_exit [of "(tape0 GRADIENT, heap0)" "var_at 2" "Sinh (Variable_node (var_at 0))"]
  by (simp add: tape0_def)

text \<open>
  C2. Under \<open>FIRST_ORDER\<close> a recorded assignment returns and leaves the counter
  \<open>is_dependent\<close> of every \<open>VariableInfo\<close>, that of the assigned variable included, at the
  value it had: the increment is not performed.
\<close>

theorem first_order_keeps_is_dependent:
  assumes "recording (fst s)" and "derivative_trace_level (fst s) = FIRST_ORDER"
  shows "exit_of (Assign_p this expr s) = None
         \<and> is_dependent (snd (final_state (Assign_p this expr s)) a) = is_dependent (snd s a)"
  using assms
  by (simp add: Assign_p_def Assign_switch_def Let_def exit_of_def final_state_def NextIndex_facts
      SetValue_frame)

text \<open>
  The assignment \<open>v = sinh(x)\<close> on the fresh tape: the counter of \<open>v\<close> is 0 before and
  after, where an increment would have made it 1.
\<close>

theorem first_order_keeps_is_dependent_witness:
  "recording (fst (tape0 FIRST_ORDER, heap0))
   \<and> derivative_trace_level (fst (tape0 FIRST_ORDER, heap0)) = FIRST_ORDER
   \<and> is_dependent (heap0 (info (var_at 2))) = 0
   \<and> is_dependent (snd (final_state
         (Assign_p (var_at 2) (Sinh (Variable_node (var_at 0))) (tape0 FIRST_ORDER, heap0)))
         (info (var_at 2))) = 0"
  using first_order_keeps_is_dependent
      [of "(tape0 FIRST_ORDER, heap0)" "var_at 2" "Sinh (Variable_node (var_at 0))" "info (var_at 2)"]
  by (simp add: tape0_def heap0_def info_at_def var_at_def)

text \<open>
  C6, as stated, fails under \<open>GRADIENT\<close>: after \<open>v = sinh(x)\<close> on the fresh tape the new
  record holds the leaf with identifier 5, and \<open>max_id\<close> is still 0.
\<close>

theorem gradient_range_counterexample:
  "ids (gradient_stack (fst (final_state
          (Assign_p (var_at 2) (Sinh (Variable_node (var_at 0))) (tape0 GRADIENT, heap0)))) ! 0) = [0]
   \<and> info_id (snd (final_state
          (Assign_p (var_at 2) (Sinh (Variable_node (var_at 0))) (tape0 GRADIENT, heap0))) 0) = 5
   \<and> max_id (fst (final_state
          (Assign_p (var_at 2) (Sinh (Variable_node (var_at 0))) (tape0 GRADIENT, heap0)))) = 0
   \<and> \<not> info_id (snd (final_state
          (Assign_p (var_at 2) (Sinh (Variable_node (var_at 0))) (tape0 GRADIENT, heap0))) 0)
        \<le> max_id (fst (final_state
          (Assign_p (var_at 2) (Sinh (Variable_node (var_at 0))) (tape0 GRADIENT, heap0))))"
  by (simp add: Assign_p_def Assign_switch_def Let_def final_state_def NextIndex_def tape0_def
      empty_entry_def resize_def Sinh_def Variable_node_def IDSet_insert_def var_at_def heap0_def
      info_at_def SetValue_def)

text \<open>
  C6, amended. Under \<open>FIRST_ORDER\<close> a recorded assignment returns with \<open>min_id\<close> at most and
  \<open>max_id\<close> at least the identifier of every leaf of the new record. Under \<open>GRADIENT\<close> it
  returns with \<open>min_id\<close> and \<open>max_id\<close> as they were.
\<close>

theorem leaf_id_range:
  assumes "recording (fst s)"
  shows "(derivative_trace_level (fst s) = FIRST_ORDER \<longrightarrow>
            exit_of (Assign_p this expr s) = None
            \<and> (\<forall>a \<in> set (ids (gradient_stack (fst (final_state (Assign_p this expr s)))
                                ! stack_current (fst s))).
                  min_id (fst (final_state (Assign_p this expr s)))
                    \<le> info_id (snd (final_state (Assign_p this expr s)) a)
                  \<and> info_id (snd (final_state (Assign_p this expr s)) a)
                    \<le> max_id (fst (final_state (Assign_p this expr s)))))
         \<and> (derivative_trace_level (fst s) = GRADIENT \<longrightarrow>
            exit_of (Assign_p this expr s) = None
            \<and> min_id (fst (final_state (Assign_p this expr s))) = min_id (fst s)
            \<and> max_id (fst (final_state (Assign_p this expr s))) = max_id (fst s))"
proof (intro conjI impI)
  assume g: "derivative_trace_level (fst s) = GRADIENT"
  with assms show "exit_of (Assign_p this expr s) = None"
    by (simp add: Assign_p_def Assign_switch_def Let_def exit_of_def NextIndex_facts)
  from g assms show "min_id (fst (final_state (Assign_p this expr s))) = min_id (fst s)"
    by (simp add: Assign_p_def Assign_switch_def Let_def final_state_def NextIndex_facts)
  from g assms show "max_id (fst (final_state (Assign_p this expr s))) = max_id (fst s)"
    by (simp add: Assign_p_def Assign_switch_def Let_def final_state_def NextIndex_facts)
next
  assume f: "derivative_trace_level (fst s) = FIRST_ORDER"
  with assms show "exit_of (Assign_p this expr s) = None"
    by (simp add: Assign_p_def Assign_switch_def Let_def exit_of_def NextIndex_facts)
  let ?index = "fst (NextIndex (fst s))"
  let ?gs1 = "snd (NextIndex (fst s))"
  let ?slot = "gradient_stack ?gs1 ! ?index"
  let ?its = "PushIds expr (ids ?slot)"
  let ?entry = "?slot\<lparr>ids := ?its, first := resize (length ?its) 0 (first ?slot), w := Some (info this)\<rparr>"
  let ?r = "first_order_loop expr (snd s) ?its 0 (?gs1, ?entry)"
  have lt: "?index < length (gradient_stack ?gs1)" by (rule NextIndex_facts)
  have ix: "?index = stack_current (fst s)" by (rule NextIndex_facts)
  from f assms have gs': "fst (final_state (Assign_p this expr s))
      = (fst ?r)\<lparr>gradient_stack := (gradient_stack (fst ?r))[?index := snd ?r]\<rparr>"
    by (simp add: Assign_p_def Assign_switch_def Let_def final_state_def NextIndex_facts)
  from f assms have h': "snd (final_state (Assign_p this expr s))
      = SetValue this (GetValue expr (snd s)) (snd s)"
    by (simp add: Assign_p_def Assign_switch_def Let_def final_state_def NextIndex_facts)
  have its: "ids (gradient_stack (fst (final_state (Assign_p this expr s))) ! stack_current (fst s)) = ?its"
    unfolding gs' ix [symmetric] using lt
    by (simp add: first_order_loop_tape first_order_loop_entry)
  have rng: "\<forall>a \<in> set ?its. min_id (fst ?r) \<le> info_id (snd s a) \<and> info_id (snd s a) \<le> max_id (fst ?r)"
    using first_order_loop_range [of expr "snd s" ?its 0 ?gs1 ?entry] by blast
  show "\<forall>a \<in> set (ids (gradient_stack (fst (final_state (Assign_p this expr s)))
                                ! stack_current (fst s))).
                  min_id (fst (final_state (Assign_p this expr s)))
                    \<le> info_id (snd (final_state (Assign_p this expr s)) a)
                  \<and> info_id (snd (final_state (Assign_p this expr s)) a)
                    \<le> max_id (fst (final_state (Assign_p this expr s)))"
    unfolding its using rng by (simp add: gs' h' SetValue_frame)
qed

text \<open>
  On the fresh tape, whose range is empty (\<open>min_id\<close> is the largest identifier and \<open>max_id\<close>
  is 0): \<open>v = x * y\<close> under \<open>FIRST_ORDER\<close> brings the range to the identifiers 5 and 6 of
  the two leaves, and \<open>v = sinh(x)\<close> under \<open>GRADIENT\<close> leaves \<open>max_id\<close> at 0.
\<close>

theorem leaf_id_range_witness:
  "recording (fst (tape0 FIRST_ORDER, heap0))
   \<and> min_id (fst (final_state
         (Assign_p (var_at 2) (Multiply (Variable_node (var_at 0)) (Variable_node (var_at 1)))
            (tape0 FIRST_ORDER, heap0)))) = 5
   \<and> max_id (fst (final_state
         (Assign_p (var_at 2) (Multiply (Variable_node (var_at 0)) (Variable_node (var_at 1)))
            (tape0 FIRST_ORDER, heap0)))) = 6
   \<and> max_id (fst (final_state
         (Assign_p (var_at 2) (Sinh (Variable_node (var_at 0))) (tape0 GRADIENT, heap0)))) = 0"
  using leaf_id_range [of "(tape0 FIRST_ORDER, heap0)" "var_at 2"
      "Multiply (Variable_node (var_at 0)) (Variable_node (var_at 1))"]
    leaf_id_range [of "(tape0 GRADIENT, heap0)" "var_at 2" "Sinh (Variable_node (var_at 0))"]
  by (simp add: Assign_p_def Assign_switch_def Let_def final_state_def NextIndex_def tape0_def
      empty_entry_def resize_def Multiply_def Sinh_def Variable_node_def IDSet_insert_def var_at_def
      heap0_def info_at_def SetValue_def)


section \<open>The Hessian case: which cells are written\<close>

lemma cell_index_eq:
  fixes n q q' r r' :: nat
  assumes "q < n" and "q' < n"
  shows "(r * n + q = r' * n + q') \<longleftrightarrow> (r = r' \<and> q = q')"
proof
  assume e: "r * n + q = r' * n + q'"
  from assms have "(r * n + q) div n = r" "(r' * n + q') div n = r'" by simp_all
  with e have "r = r'" by simp
  with e show "r = r' \<and> q = q'" by simp
qed simp

lemma cell_index_less:
  fixes n q r :: nat
  assumes "r < n" and "q < n"
  shows "r * n + q < n * n"
proof -
  from assms have "r * n + q < r * n + n" by simp
  also have "\<dots> = Suc r * n" by simp
  also from assms have "\<dots> \<le> n * n" by (intro mult_le_mono1) simp
  finally show ?thesis .
qed

lemma hessian_inner_nth:
  assumes "length (second_mixed entry) = n * n" and "length (first entry) = n"
    and "i < n" and "j \<le> i" and "j + length jts = n" and "r < n" and "q < n"
  shows "second_mixed (hessian_inner expr h it i jts j entry) ! (r * n + q) =
    (if r = i \<and> j \<le> q \<and> q \<le> i
     then EvaluateDerivative2 expr h (info_id (h it)) (info_id (h (jts ! (q - j))))
     else if q = i \<and> j \<le> r \<and> r < i
     then EvaluateDerivative2 expr h (info_id (h it)) (info_id (h (jts ! (r - j))))
     else second_mixed entry ! (r * n + q))"
  using assms
proof (induction jts arbitrary: j entry)
  case Nil
  then show ?case by simp
next
  case (Cons jt jts)
  let ?dxx = "EvaluateDerivative2 expr h (info_id (h it)) (info_id (h jt))"
  let ?e1 = "entry\<lparr>second_mixed := (second_mixed entry)[i * n + j := ?dxx]\<rparr>"
  let ?e2 = "if i > 0 \<and> i \<noteq> j
             then ?e1\<lparr>second_mixed := (second_mixed ?e1)[j * n + i := ?dxx]\<rparr> else ?e1"
  from Cons.prems have jn: "j < n" by simp
  have ij: "i * n + j < n * n" using Cons.prems(3) jn by (rule cell_index_less)
  have ji: "j * n + i < n * n" using jn Cons.prems(3) by (rule cell_index_less)
  have rq: "r * n + q < n * n" using Cons.prems(6,7) by (rule cell_index_less)
  show ?case
  proof (cases "j = i")
    case True
    then have "hessian_inner expr h it i (jt # jts) j entry = ?e1"
      using Cons.prems(2) by (simp add: Let_def)
    then show ?thesis
      using True Cons.prems ij rq
      by (auto simp add: nth_list_update cell_index_eq)
  next
    case False
    with Cons.prems have lt: "j < i" by simp
    then have step: "hessian_inner expr h it i (jt # jts) j entry
                 = hessian_inner expr h it i jts (j + 1)
                     (?e1\<lparr>second_mixed := (second_mixed ?e1)[j * n + i := ?dxx]\<rparr>)"
      using Cons.prems(2) by (simp add: Let_def)
    let ?e = "?e1\<lparr>second_mixed := (second_mixed ?e1)[j * n + i := ?dxx]\<rparr>"
    have ih: "second_mixed (hessian_inner expr h it i jts (j + 1) ?e) ! (r * n + q) =
      (if r = i \<and> j + 1 \<le> q \<and> q \<le> i
       then EvaluateDerivative2 expr h (info_id (h it)) (info_id (h (jts ! (q - (j + 1)))))
       else if q = i \<and> j + 1 \<le> r \<and> r < i
       then EvaluateDerivative2 expr h (info_id (h it)) (info_id (h (jts ! (r - (j + 1)))))
       else second_mixed ?e ! (r * n + q))"
      using Cons.prems lt by (intro Cons.IH) simp_all
    have old: "second_mixed ?e ! (r * n + q) =
      (if r = j \<and> q = i then ?dxx else if r = i \<and> q = j then ?dxx
       else second_mixed entry ! (r * n + q))"
      using Cons.prems ij ji rq jn
      by (simp add: nth_list_update cell_index_eq)
    have nth1: "(jt # jts) ! (q - j) = jts ! (q - (j + 1))" if "j + 1 \<le> q" for q
    proof -
      from that have "q - j = Suc (q - (j + 1))" by arith
      then show ?thesis by simp
    qed
    show ?thesis
      unfolding step ih old using lt
      by (auto simp add: nth1 not_less_eq_eq)
  qed
qed

lemma hessian_outer_nth:
  assumes "length (second_mixed entry) = n * n" and "length (first entry) = n"
    and "length all_ids = n" and "its = drop i all_ids" and "i \<le> n" and "r < n" and "q < n"
  shows "second_mixed (snd (hessian_outer expr all_ids its i (h, entry))) ! (r * n + q) =
    (if i \<le> max r q
     then EvaluateDerivative2 expr
            (fold bump_dependence_level (take (Suc (max r q - i)) its) h)
            (info_id (fold bump_dependence_level (take (Suc (max r q - i)) its) h (all_ids ! max r q)))
            (info_id (fold bump_dependence_level (take (Suc (max r q - i)) its) h (all_ids ! min r q)))
     else second_mixed entry ! (r * n + q))"
  using assms
proof (induction its arbitrary: i h entry)
  case Nil
  then have "i = n" by simp
  moreover from Nil.prems have "max r q < n" by simp
  ultimately have "\<not> i \<le> max r q" by linarith
  then show ?case by simp
next
  case (Cons it its)
  from Cons.prems have i: "i < n" by (cases "i < n") simp_all
  with Cons.prems have "all_ids ! i # drop (Suc i) all_ids = it # its"
    using Cons_nth_drop_Suc [of i all_ids] by simp
  then have it: "it = all_ids ! i" and rest: "its = drop (i + 1) all_ids"
    by simp_all
  let ?h1 = "bump_dependence_level it h"
  let ?e1 = "entry\<lparr>first := (first entry)[i := EvaluateDerivative expr ?h1 (info_id (?h1 it))]\<rparr>"
  let ?e2 = "hessian_inner expr ?h1 it i all_ids 0 ?e1"
  have step: "hessian_outer expr all_ids (it # its) i (h, entry)
                = hessian_outer expr all_ids its (i + 1) (?h1, ?e2)"
    by (simp add: Let_def)
  have len2: "length (second_mixed ?e2) = n * n" and len1: "length (first ?e2) = n"
    using Cons.prems(1,2) by (simp_all add: hessian_inner_entry)
  have inner: "second_mixed ?e2 ! (r * n + q) =
    (if r = i \<and> q \<le> i
     then EvaluateDerivative2 expr ?h1 (info_id (?h1 it)) (info_id (?h1 (all_ids ! q)))
     else if q = i \<and> r < i
     then EvaluateDerivative2 expr ?h1 (info_id (?h1 it)) (info_id (?h1 (all_ids ! r)))
     else second_mixed entry ! (r * n + q))"
    using hessian_inner_nth [of ?e1 n i 0 all_ids r q expr ?h1 it] Cons.prems i by simp
  have ih: "second_mixed (snd (hessian_outer expr all_ids its (i + 1) (?h1, ?e2))) ! (r * n + q) =
    (if i + 1 \<le> max r q
     then EvaluateDerivative2 expr
            (fold bump_dependence_level (take (Suc (max r q - (i + 1))) its) ?h1)
            (info_id (fold bump_dependence_level (take (Suc (max r q - (i + 1))) its) ?h1 (all_ids ! max r q)))
            (info_id (fold bump_dependence_level (take (Suc (max r q - (i + 1))) its) ?h1 (all_ids ! min r q)))
     else second_mixed ?e2 ! (r * n + q))"
    using len2 len1 Cons.prems(3) rest i Cons.prems(6,7) by (intro Cons.IH) simp_all
  consider (below) "max r q < i" | (row) "max r q = i" | (above) "i < max r q" by linarith
  then show ?case
  proof cases
    case below
    then show ?thesis unfolding step ih inner by auto
  next
    case row
    then have "(r = i \<and> q \<le> i) \<or> (q = i \<and> r < i)" by (auto simp add: max_def split: if_splits)
    then show ?thesis
    proof
      assume a: "r = i \<and> q \<le> i"
      then have "max r q = i" "min r q = q" by simp_all
      with a show ?thesis unfolding step ih inner by (simp add: it)
    next
      assume a: "q = i \<and> r < i"
      then have "max r q = i" "min r q = r" by simp_all
      with a show ?thesis unfolding step ih inner by (simp add: it)
    qed
  next
    case above
    then have "Suc (max r q - i) = Suc (Suc (max r q - (i + 1)))" by arith
    then have "fold bump_dependence_level (take (Suc (max r q - i)) (it # its)) h
               = fold bump_dependence_level (take (Suc (max r q - (i + 1))) its) ?h1"
      by simp
    with above show ?thesis unfolding step ih by simp
  qed
qed

lemma length_resize: "length (resize n v xs) = n"
  by (simp add: resize_def)

text \<open>
  C5, as stated, fails: after \<open>v = x * y\<close> on the fresh tape under \<open>GRADIENT_AND_HESSIAN\<close> the
  cell \<open>second_mixed[0 * 2 + 1]\<close>, which lies above the diagonal, holds the mixed derivative
  1, while it held 0 when the vector had been resized.
\<close>

theorem hessian_upper_cell_counterexample:
  "resize (2 * 2) 0 (second_mixed (gradient_stack (snd (NextIndex (tape0 GRADIENT_AND_HESSIAN))) ! 0))
     ! (0 * 2 + 1) = (0 :: real)
   \<and> second_mixed (gradient_stack (fst (final_state
         (Assign_p (var_at 2) (Multiply (Variable_node (var_at 0)) (Variable_node (var_at 1)))
            (tape0 GRADIENT_AND_HESSIAN, heap0)))) ! 0) ! (0 * 2 + 1) = 1
   \<and> second_mixed (gradient_stack (fst (final_state
         (Assign_p (var_at 2) (Multiply (Variable_node (var_at 0)) (Variable_node (var_at 1)))
            (tape0 GRADIENT_AND_HESSIAN, heap0)))) ! 0) = [0, 1, 1, 0]"
  by (simp add: Assign_p_def Assign_switch_def Let_def final_state_def NextIndex_def tape0_def
      empty_entry_def resize_def Multiply_def Variable_node_def IDSet_insert_def var_at_def
      heap0_def info_at_def SetValue_def bump_dependence_level_def)

text \<open>
  C5, amended. Under \<open>GRADIENT_AND_HESSIAN\<close> a recorded assignment returns, and in the new
  record \<open>second_mixed\<close> has \<open>n * n\<close> cells, \<open>n\<close> being the number of leaves. The inner loop
  stops once \<open>j\<close> equals \<open>i\<close>, and for every \<open>j \<le> i\<close> the number computed for the leaves \<open>i\<close>
  and \<open>j\<close> stands both in the cell \<open>i * n + j\<close> on or below the diagonal and in the mirrored
  cell \<open>j * n + i\<close> above it: every cell of the vector is written.
\<close>

theorem hessian_fills_both_triangles:
  assumes "recording (fst s)" and "derivative_trace_level (fst s) = GRADIENT_AND_HESSIAN"
    and "leaves = PushIds expr (ids (gradient_stack (snd (NextIndex (fst s))) ! stack_current (fst s)))"
    and "n = length leaves"
  shows "exit_of (Assign_p this expr s) = None
         \<and> length (second_mixed (gradient_stack (fst (final_state (Assign_p this expr s)))
                      ! stack_current (fst s))) = n * n
         \<and> (\<forall>i < n. \<forall>j \<le> i.
               second_mixed (gradient_stack (fst (final_state (Assign_p this expr s)))
                  ! stack_current (fst s)) ! (i * n + j) = hessian_cell expr (snd s) leaves i j
               \<and> second_mixed (gradient_stack (fst (final_state (Assign_p this expr s)))
                  ! stack_current (fst s)) ! (j * n + i) = hessian_cell expr (snd s) leaves i j)"
proof -
  let ?index = "stack_current (fst s)"
  let ?gs1 = "snd (NextIndex (fst s))"
  let ?slot = "gradient_stack ?gs1 ! ?index"
  let ?entry = "?slot\<lparr>ids := leaves, first := resize n 0 (first ?slot), w := Some (info this),
                        second_mixed := resize (n * n) 0 (second_mixed ?slot)\<rparr>"
  let ?r = "hessian_outer expr leaves leaves 0 (snd s, ?entry)"
  have lt: "?index < length (gradient_stack ?gs1)"
    using NextIndex_facts(3) [of "fst s"] by (simp add: NextIndex_facts(1))
  from assms have ex: "exit_of (Assign_p this expr s) = None"
    by (simp add: Assign_p_def Assign_switch_def Let_def exit_of_def NextIndex_facts)
  from assms have "fst (final_state (Assign_p this expr s))
      = ?gs1\<lparr>gradient_stack := (gradient_stack ?gs1)[?index := snd ?r]\<rparr>"
    by (simp add: Assign_p_def Assign_switch_def Let_def final_state_def NextIndex_facts)
  with lt have entry':
    "gradient_stack (fst (final_state (Assign_p this expr s))) ! ?index = snd ?r"
    by simp
  have len: "length (second_mixed (snd ?r)) = n * n"
    by (simp add: hessian_outer_entry length_resize)
  have cells: "second_mixed (snd ?r) ! (p * n + q) =
      EvaluateDerivative2 expr
        (fold bump_dependence_level (take (Suc (max p q)) leaves) (snd s))
        (info_id (fold bump_dependence_level (take (Suc (max p q)) leaves) (snd s) (leaves ! max p q)))
        (info_id (fold bump_dependence_level (take (Suc (max p q)) leaves) (snd s) (leaves ! min p q)))"
    if "p < n" and "q < n" for p q
  proof -
    have a1: "length (second_mixed ?entry) = n * n" by (simp add: length_resize)
    have a2: "length (first ?entry) = n" by (simp add: length_resize)
    have a3: "length leaves = n" using assms(4) by simp
    have a4: "leaves = drop 0 leaves" by simp
    have a5: "0 \<le> n" by simp
    from hessian_outer_nth [OF a1 a2 a3 a4 a5 that, of expr "snd s"] show ?thesis by simp
  qed
  have both: "second_mixed (snd ?r) ! (i * n + j) = hessian_cell expr (snd s) leaves i j
              \<and> second_mixed (snd ?r) ! (j * n + i) = hessian_cell expr (snd s) leaves i j"
    if "i < n" and "j \<le> i" for i j
  proof -
    from that have j: "j < n" by simp
    from that have m: "max i j = i" "min i j = j" "max j i = i" "min j i = j" by simp_all
    show ?thesis
      using cells [OF that(1) j] cells [OF j that(1)]
      by (simp add: m hessian_cell_def Let_def)
  qed
  from ex len both show ?thesis unfolding entry' by blast
qed

text \<open>
  The assignment \<open>v = x * y\<close> on the fresh tape: the four cells hold 0, 1, 1 and 0, the
  mixed derivative standing on both sides of the diagonal.
\<close>

theorem hessian_fills_both_triangles_witness:
  "recording (fst (tape0 GRADIENT_AND_HESSIAN, heap0))
   \<and> derivative_trace_level (fst (tape0 GRADIENT_AND_HESSIAN, heap0)) = GRADIENT_AND_HESSIAN
   \<and> PushIds (Multiply (Variable_node (var_at 0)) (Variable_node (var_at 1)))
        (ids (gradient_stack (snd (NextIndex (fst (tape0 GRADIENT_AND_HESSIAN, heap0))))
               ! stack_current (fst (tape0 GRADIENT_AND_HESSIAN, heap0)))) = [0, 1]
   \<and> hessian_cell (Multiply (Variable_node (var_at 0)) (Variable_node (var_at 1))) heap0 [0, 1] 1 0 = 1
   \<and> second_mixed (gradient_stack (fst (final_state
         (Assign_p (var_at 2) (Multiply (Variable_node (var_at 0)) (Variable_node (var_at 1)))
            (tape0 GRADIENT_AND_HESSIAN, heap0)))) ! 0) ! (1 * 2 + 0) = 1
   \<and> second_mixed (gradient_stack (fst (final_state
         (Assign_p (var_at 2) (Multiply (Variable_node (var_at 0)) (Variable_node (var_at 1)))
            (tape0 GRADIENT_AND_HESSIAN, heap0)))) ! 0) ! (0 * 2 + 1) = 1"
proof -
  have l: "PushIds (Multiply (Variable_node (var_at 0)) (Variable_node (var_at 1)))
        (ids (gradient_stack (snd (NextIndex (fst (tape0 GRADIENT_AND_HESSIAN, heap0))))
               ! stack_current (fst (tape0 GRADIENT_AND_HESSIAN, heap0)))) = [0, 1]"
    by (simp add: NextIndex_def tape0_def empty_entry_def Multiply_def Variable_node_def
        IDSet_insert_def var_at_def)
  have c: "hessian_cell (Multiply (Variable_node (var_at 0)) (Variable_node (var_at 1))) heap0 [0, 1] 1 0 = 1"
    by (simp add: hessian_cell_def Let_def Multiply_def Variable_node_def var_at_def heap0_def
        info_at_def bump_dependence_level_def)
  have r: "recording (fst (tape0 GRADIENT_AND_HESSIAN, heap0))"
    and d: "derivative_trace_level (fst (tape0 GRADIENT_AND_HESSIAN, heap0)) = GRADIENT_AND_HESSIAN"
    by (simp_all add: tape0_def)
  have n: "(2::nat) = length [0::nat, 1]" by simp
  have z: "stack_current (tape0 GRADIENT_AND_HESSIAN) = 0"
    by (simp add: tape0_def)
  note cell = hessian_fills_both_triangles [OF r d l [symmetric] n, of "var_at 2",
      THEN conjunct2, THEN conjunct2, rule_format, of 1 0]
  have "second_mixed (gradient_stack (fst (final_state
         (Assign_p (var_at 2) (Multiply (Variable_node (var_at 0)) (Variable_node (var_at 1)))
            (tape0 GRADIENT_AND_HESSIAN, heap0)))) ! 0) ! (1 * 2 + 0) = 1
        \<and> second_mixed (gradient_stack (fst (final_state
         (Assign_p (var_at 2) (Multiply (Variable_node (var_at 0)) (Variable_node (var_at 1)))
            (tape0 GRADIENT_AND_HESSIAN, heap0)))) ! 0) ! (0 * 2 + 1) = 1"
    using cell by (simp add: z c del: One_nat_def)
  with r d l c show ?thesis by (intro conjI) simp_all
qed


end
